theory Spec2Isabelle
  imports Main
begin

section \<open>The environment of \<open>i18n-inlining.ts\<close>\<close>

text \<open>
  The module \<open>packages/angular_devkit/build_angular/src/utils/i18n-inlining.ts\<close> has two
  functions: \<open>emittedFilesToInlineOptions\<close>, a loop that reads and deletes the emitted
  script files, and \<open>i18nInlineEmittedFiles\<close>, which runs that loop, streams the results of
  the bundle executor, copies the remaining files and returns a boolean.

  Everything the module touches outside its own memory is made explicit in one
  \<open>world\<close>: the files on disk, the faults the file system may answer with, and the trace
  of calls made to the logger, the spinner, the executor and the copy helper.
\<close>

type_synonym path = string

text \<open>A JavaScript error object: \<open>err.code\<close> (absent on errors that are not system
  errors) and \<open>err.message\<close>.\<close>

record js_error =
  err_code :: "string option"
  err_message :: string

text \<open>\<open>EmittedFiles\<close> of \<open>@angular-devkit/build-webpack\<close>; of its fields the module reads
  \<open>name?\<close>, \<open>file\<close> (here \<open>file'\<close>), \<open>asset?\<close> and \<open>extension\<close>. An absent \<open>asset\<close> is falsy and is
  modelled as \<open>False\<close>; an absent \<open>name\<close> is \<open>None\<close>.\<close>

record EmittedFiles =
  name :: "string option"
  file' :: string
  asset :: bool
  extension :: string

datatype MissingTranslation = MtError | MtWarning | MtIgnore

text \<open>\<open>InlineOptions\<close> of \<open>./process-bundle\<close>, with the fields the module sets. The
  field \<open>map\<close> of the source is \<open>map_text\<close> here.\<close>

record InlineOptions =
  filename :: string
  code :: string
  map_text :: "string option"
  es5 :: bool
  outputPath :: path
  missingTranslation :: "MissingTranslation option"
  setLocale :: bool

text \<open>A diagnostic of a result, \<open>{ type, message }\<close>; the module compares \<open>type\<close> with
  the string \<open>'error'\<close>. A result of the executor's stream: \<open>result.file\<close> and
  \<open>result.diagnostics\<close>.\<close>

record Diagnostic =
  dtype :: string
  message :: string

record ProcessBundleResult =
  result_file :: string
  diagnostics :: "Diagnostic list"

text \<open>What \<open>executor.inlineAll(options)\<close> delivers to the \<open>for await\<close> loop: the results
  it yields, in the order it yields them, and the error it throws after them, if any.
  The executor is a collaborator of the module (\<open>./action-executor\<close>); the model takes its
  behaviour as a parameter. The localized bundles that its workers write below the output
  path are not part of the world.\<close>

type_synonym BundleActionExecutor =
  "InlineOptions list \<Rightarrow> ProcessBundleResult list \<times> js_error option"

datatype event =
    LoggerDebug string
  | LoggerError string
  | LoggerWarn string
  | SpinnerStart "string option"
  | SpinnerStop
  | SpinnerFail string
  | SpinnerSucceed string
  | ExecutorInlineAll "InlineOptions list"
  | ExecutorStop
  | CopyAssets path "path list" "path list"
  | CopyFile path path

record world =
  files :: "(path \<times> string) list"
  read_fault :: "path \<Rightarrow> js_error option"
  unlink_fault :: "path \<Rightarrow> js_error option"
  copy_fault :: "path \<Rightarrow> js_error option"
  trace :: "event list"

definition emit :: "event \<Rightarrow> world \<Rightarrow> world" where
  "emit e w = w\<lparr>trace := trace w @ [e]\<rparr>"

definition logger_debug :: "string \<Rightarrow> world \<Rightarrow> world" where
  "logger_debug msg = emit (LoggerDebug msg)"

definition logger_error :: "string \<Rightarrow> world \<Rightarrow> world" where
  "logger_error msg = emit (LoggerError msg)"

definition logger_warn :: "string \<Rightarrow> world \<Rightarrow> world" where
  "logger_warn msg = emit (LoggerWarn msg)"

definition spinner_start :: "string option \<Rightarrow> world \<Rightarrow> world" where
  "spinner_start text = emit (SpinnerStart text)"

definition spinner_stop :: "world \<Rightarrow> world" where
  "spinner_stop = emit SpinnerStop"

definition spinner_fail :: "string \<Rightarrow> world \<Rightarrow> world" where
  "spinner_fail text = emit (SpinnerFail text)"

definition spinner_succeed :: "string \<Rightarrow> world \<Rightarrow> world" where
  "spinner_succeed text = emit (SpinnerSucceed text)"

definition executor_stop :: "world \<Rightarrow> world" where
  "executor_stop = emit ExecutorStop"

subsection \<open>Node's \<open>fs\<close> and \<open>path\<close>\<close>

text \<open>
  \<open>fs.readFileSync(p, 'utf8')\<close> returns the content of \<open>p\<close> or throws; it throws
  \<open>ENOENT\<close> when there is no such file, and whatever the fault table holds for \<open>p\<close>
  (\<open>EACCES\<close>, \<open>EISDIR\<close>, ...). \<open>fs.unlinkSync(p)\<close> removes \<open>p\<close> or throws in the
  same way.
\<close>

definition enoent :: "string \<Rightarrow> path \<Rightarrow> js_error" where
  "enoent syscall p =
     \<lparr>err_code = Some ''ENOENT'',
      err_message = ''ENOENT: no such file or directory, '' @ syscall @ '' '' @ p\<rparr>"

definition readFileSync :: "path \<Rightarrow> world \<Rightarrow> js_error + string" where
  "readFileSync p w =
     (case read_fault w p of
        Some e \<Rightarrow> Inl e
      | None \<Rightarrow>
          (case map_of (files w) p of
             None \<Rightarrow> Inl (enoent ''open'' p)
           | Some content \<Rightarrow> Inr content))"

definition unlinkSync :: "path \<Rightarrow> world \<Rightarrow> js_error + world" where
  "unlinkSync p w =
     (case unlink_fault w p of
        Some e \<Rightarrow> Inl e
      | None \<Rightarrow>
          (case map_of (files w) p of
             None \<Rightarrow> Inl (enoent ''unlink'' p)
           | Some content \<Rightarrow> Inr (w\<lparr>files := filter (\<lambda>entry. fst entry \<noteq> p) (files w)\<rparr>)))"

text \<open>\<open>e.toString()\<close> of an \<open>Error\<close>.\<close>

definition toString :: "js_error \<Rightarrow> string" where
  "toString e = ''Error: '' @ err_message e"

text \<open>
  \<open>path.join(dir, file)\<close> and \<open>path.relative(dir, p)\<close> for a directory name with no
  trailing separator and a file name that is already normalised (no empty, \<open>.\<close> or
  \<open>..\<close> segment), which is what the bundler emits: the join puts one separator between
  the two, and the relative path of a path below \<open>dir\<close> is what follows that separator.
  \<open>path_relative\<close> is only ever applied to paths that \<open>path_join\<close> built on the same
  directory.
\<close>

definition path_join :: "path \<Rightarrow> string \<Rightarrow> path" where
  "path_join dir f = dir @ ''/'' @ f"

definition path_relative :: "path \<Rightarrow> path \<Rightarrow> string" where
  "path_relative dir p = drop (Suc (length dir)) p"

definition under :: "path \<Rightarrow> path \<Rightarrow> bool" where
  "under dir p \<longleftrightarrow> take (Suc (length dir)) p = dir @ ''/''"

section \<open>\<open>emittedFilesToInlineOptions\<close>\<close>

text \<open>The test of lines 31--35: the artifact is skipped (\<open>continue\<close>). In
  \<open>emittedFile.name && ...\<close> an absent name and the empty string are both falsy.\<close>

definition skipped :: "string list \<Rightarrow> EmittedFiles \<Rightarrow> bool" where
  "skipped scriptsEntryPointName emittedFile \<longleftrightarrow>
     asset emittedFile \<or>
     extension emittedFile \<noteq> ''.js'' \<or>
     (case name emittedFile of
        None \<Rightarrow> False
      | Some n \<Rightarrow> n \<noteq> [] \<and> n \<in> set scriptsEntryPointName)"

definition unable_to_delete :: "path \<Rightarrow> js_error \<Rightarrow> string" where
  "unable_to_delete p e =
     ''Unable to delete i18n temporary file ['' @ p @ '']: '' @ toString e"

text \<open>\<open>try { fs.unlinkSync(p) } catch (e) { context.logger.debug(...) }\<close>\<close>

definition try_unlink :: "path \<Rightarrow> world \<Rightarrow> world" where
  "try_unlink p w =
     (case unlinkSync p w of
        Inl e \<Rightarrow> logger_debug (unable_to_delete p e) w
      | Inr w' \<Rightarrow> w')"

text \<open>
  The body of the loop for an artifact that is not skipped (lines 39--80). It returns the
  action pushed to \<open>options\<close> and the paths pushed to \<open>originalFiles\<close>, or the error it
  throws; the world is returned in both cases, since what was deleted and logged before a
  throw stays so.
\<close>

definition inlineOptionsOf ::
  "path \<Rightarrow> path \<Rightarrow> bool \<Rightarrow> MissingTranslation option \<Rightarrow> EmittedFiles \<Rightarrow> world
    \<Rightarrow> (js_error + InlineOptions \<times> path list) \<times> world" where
  "inlineOptionsOf emittedPath outPath legacy policy emittedFile w =
     (let originalPath = path_join emittedPath (file' emittedFile) in
      case readFileSync originalPath w of
        Inl e \<Rightarrow> (Inl e, w)
      | Inr content \<Rightarrow>
          (let action =
                 \<lparr>filename = file' emittedFile, code = content, map_text = None,
                  es5 = legacy, outputPath = outPath, missingTranslation = policy,
                  setLocale = (name emittedFile = Some ''main'' \<or>
                               name emittedFile = Some ''vendor'')\<rparr>;
               w1 = try_unlink originalPath w;
               originalMapPath = originalPath @ ''.map''
           in case readFileSync originalMapPath w1 of
                Inr m \<Rightarrow>
                  (let w2 = try_unlink originalMapPath w1
                   in (Inr (action\<lparr>map_text := Some m\<rparr>, [originalPath, originalMapPath]),
                       logger_debug (''i18n file queued for processing: '' @ file' emittedFile) w2))
              | Inl err \<Rightarrow>
                  if err_code err \<noteq> Some ''ENOENT'' then (Inl err, w1)
                  else (Inr (action, [originalPath]),
                        logger_debug (''i18n file queued for processing: '' @ file' emittedFile) w1)))"

text \<open>The \<open>for\<close> loop of lines 30--81 with its two accumulators.\<close>

fun inlineOptionsLoop ::
  "string list \<Rightarrow> path \<Rightarrow> path \<Rightarrow> bool \<Rightarrow> MissingTranslation option \<Rightarrow> EmittedFiles list
    \<Rightarrow> InlineOptions list \<Rightarrow> path list \<Rightarrow> world
    \<Rightarrow> (js_error + InlineOptions list \<times> path list) \<times> world" where
  "inlineOptionsLoop scriptsEntryPointName emittedPath outPath legacy policy [] opts originalFiles w =
     (Inr (opts, originalFiles), w)"
| "inlineOptionsLoop scriptsEntryPointName emittedPath outPath legacy policy (emittedFile # rest)
       opts originalFiles w =
     (if skipped scriptsEntryPointName emittedFile
      then inlineOptionsLoop scriptsEntryPointName emittedPath outPath legacy policy rest
             opts originalFiles w
      else
        (case inlineOptionsOf emittedPath outPath legacy policy emittedFile w of
           (Inl e, w') \<Rightarrow> (Inl e, w')
         | (Inr (action, paths), w') \<Rightarrow>
             inlineOptionsLoop scriptsEntryPointName emittedPath outPath legacy policy rest
               (opts @ [action]) (originalFiles @ paths) w'))"

definition emittedFilesToInlineOptions ::
  "EmittedFiles list \<Rightarrow> string list \<Rightarrow> path \<Rightarrow> path \<Rightarrow> bool \<Rightarrow> MissingTranslation option
    \<Rightarrow> world \<Rightarrow> (js_error + InlineOptions list \<times> path list) \<times> world" where
  "emittedFilesToInlineOptions emittedFiles scriptsEntryPointName emittedPath outPath legacy policy w =
     inlineOptionsLoop scriptsEntryPointName emittedPath outPath legacy policy emittedFiles [] [] w"

section \<open>\<open>i18nInlineEmittedFiles\<close>\<close>

text \<open>The inner loop of lines 116--125 over the diagnostics of one result, with the
  variable \<open>hasErrors\<close> passed through.\<close>

fun reportDiagnostics :: "Diagnostic list \<Rightarrow> bool \<Rightarrow> world \<Rightarrow> bool \<times> world" where
  "reportDiagnostics [] hasErrors w = (hasErrors, w)"
| "reportDiagnostics (diagnostic # rest) hasErrors w =
     (let w1 = spinner_stop w in
      if dtype diagnostic = ''error''
      then reportDiagnostics rest True
             (spinner_start None (logger_error (message diagnostic) w1))
      else reportDiagnostics rest hasErrors
             (spinner_start None (logger_warn (message diagnostic) w1)))"

text \<open>The \<open>for await\<close> loop of lines 113--126 over the results the executor yields.\<close>

fun processResults :: "ProcessBundleResult list \<Rightarrow> bool \<Rightarrow> world \<Rightarrow> bool \<times> world" where
  "processResults [] hasErrors w = (hasErrors, w)"
| "processResults (result # rest) hasErrors w =
     (case reportDiagnostics (diagnostics result) hasErrors
             (logger_debug (''i18n file processed: '' @ result_file result) w) of
        (hasErrors', w') \<Rightarrow> processResults rest hasErrors' w')"

text \<open>Modelled from the spec: \<open>copyAssets\<close> of \<open>./copy-assets\<close> is not among the sources.
  The spec's PassthroughReconciler (4.5) copies every file under the intermediate root
  into each of the output roots, excluding exactly the files named in the consumed paths,
  expressed relative to the intermediate root. \<open>copy_plan\<close> lists the copies to make,
  as pairs of source and destination.\<close>

definition copy_plan :: "path \<Rightarrow> string list \<Rightarrow> path list \<Rightarrow> world \<Rightarrow> (path \<times> path) list" where
  "copy_plan input ignore basePaths w =
     concat (map (\<lambda>entry.
         if under input (fst entry) \<and> path_relative input (fst entry) \<notin> set ignore
         then map (\<lambda>base. (fst entry, path_join base (path_relative input (fst entry)))) basePaths
         else [])
       (files w))"

text \<open>Modelled from the spec: one copy of the reconciler. A copy failure (spec 7,
  reconciliation error) is a fault of the destination or a source that is gone.\<close>

definition copyFile :: "path \<Rightarrow> path \<Rightarrow> world \<Rightarrow> js_error + world" where
  "copyFile src dest w =
     (case copy_fault w dest of
        Some e \<Rightarrow> Inl e
      | None \<Rightarrow>
          (case map_of (files w) src of
             None \<Rightarrow> Inl (enoent ''copyfile'' src)
           | Some content \<Rightarrow>
               Inr (emit (CopyFile src dest)
                      (w\<lparr>files := (dest, content) # filter (\<lambda>entry. fst entry \<noteq> dest) (files w)\<rparr>))))"

text \<open>Modelled from the spec: the copies are made in turn; the first failure is fatal
  to the reconcile step.\<close>

fun copyFiles :: "(path \<times> path) list \<Rightarrow> world \<Rightarrow> js_error option \<times> world" where
  "copyFiles [] w = (None, w)"
| "copyFiles (pair # rest) w =
     (case copyFile (fst pair) (snd pair) w of
        Inl e \<Rightarrow> (Some e, w)
      | Inr w' \<Rightarrow> copyFiles rest w')"

text \<open>Modelled from the spec: the call \<open>copyAssets([{ glob, input, output: '', ignore }],
  outputPaths, '')\<close> of lines 129--140, as the reconciler \<open>reconcile(intermediateRoot,
  outputRoots, consumedPaths)\<close> of the spec.\<close>

definition copyAssets :: "path \<Rightarrow> string list \<Rightarrow> path list \<Rightarrow> world \<Rightarrow> js_error option \<times> world" where
  "copyAssets input ignore basePaths w = copyFiles (copy_plan input ignore basePaths w) w"

text \<open>The \<open>try\<close> block of lines 102--140. It returns the error that reaches the
  \<open>catch\<close>, or the value of \<open>hasErrors\<close> when the block completes. The calls of
  \<open>executor.inlineAll\<close> and of \<open>copyAssets\<close> are recorded in the trace where they are
  made.\<close>

definition inlineAndCopy ::
  "BundleActionExecutor \<Rightarrow> EmittedFiles list \<Rightarrow> path \<Rightarrow> path list \<Rightarrow> string list \<Rightarrow> path
    \<Rightarrow> bool \<Rightarrow> MissingTranslation option \<Rightarrow> world \<Rightarrow> (js_error + bool) \<times> world" where
  "inlineAndCopy executor emittedFiles baseOutputPath outputPaths scriptsEntryPointName
       emittedPath legacy policy w =
     (case emittedFilesToInlineOptions emittedFiles scriptsEntryPointName emittedPath
             baseOutputPath legacy policy w of
        (Inl err, w1) \<Rightarrow> (Inl err, w1)
      | (Inr (opts, processedFiles), w1) \<Rightarrow>
          (case processResults (fst (executor opts)) False (emit (ExecutorInlineAll opts) w1) of
             (hasErrors, w2) \<Rightarrow>
               (case snd (executor opts) of
                  Some err \<Rightarrow> (Inl err, w2)
                | None \<Rightarrow>
                    (case copyAssets emittedPath (map (path_relative emittedPath) processedFiles)
                            outputPaths
                            (emit (CopyAssets emittedPath
                                     (map (path_relative emittedPath) processedFiles) outputPaths) w2) of
                       (Some err, w3) \<Rightarrow> (Inl err, w3)
                     | (None, w3) \<Rightarrow> (Inr hasErrors, w3)))))"

text \<open>
  The whole function. The executor built from \<open>i18n\<close> on line 97 is the parameter
  \<open>executor\<close>. On an error the \<open>catch\<close> clause reports it and returns false; the
  \<open>finally\<close> clause stops the executor on both paths, before the function returns.
\<close>

definition i18nInlineEmittedFiles ::
  "BundleActionExecutor \<Rightarrow> EmittedFiles list \<Rightarrow> path \<Rightarrow> path list \<Rightarrow> string list \<Rightarrow> path
    \<Rightarrow> bool \<Rightarrow> MissingTranslation option \<Rightarrow> world \<Rightarrow> bool \<times> world" where
  "i18nInlineEmittedFiles executor emittedFiles baseOutputPath outputPaths scriptsEntryPointName
       emittedPath legacy policy w =
     (case inlineAndCopy executor emittedFiles baseOutputPath outputPaths scriptsEntryPointName
             emittedPath legacy policy
             (spinner_start (Some ''Generating localized bundles...'') w) of
        (Inl err, w1) \<Rightarrow>
          (False,
           executor_stop
             (spinner_fail (''Localized bundle generation failed: '' @ err_message err) w1))
      | (Inr hasErrors, w1) \<Rightarrow>
          (let w2 = executor_stop w1 in
           if hasErrors
           then (False, spinner_fail ''Localized bundle generation failed.'' w2)
           else (True, spinner_succeed ''Localized bundle generation complete.'' w2)))"

section \<open>Vocabulary of the statements\<close>

text \<open>
  Names for what the statements below speak of: the action that the loop body builds, the
  events each stage appends to the trace, and tests on events. \<open>eligible_by_spec\<close> is the
  eligibility rule in the words of the specification, to be compared with \<open>skipped\<close>,
  which is the test of the source.
\<close>

fun is_debug :: "event \<Rightarrow> bool" where
  "is_debug (LoggerDebug msg) = True"
| "is_debug e = False"

definition debug_only :: "world \<Rightarrow> world \<Rightarrow> bool" where
  "debug_only w w' \<longleftrightarrow> (\<exists>evs. trace w' = trace w @ evs \<and> list_all is_debug evs)"

definition actionOf :: "path \<Rightarrow> bool \<Rightarrow> MissingTranslation option \<Rightarrow> EmittedFiles \<Rightarrow> string \<Rightarrow> InlineOptions" where
  "actionOf outPath legacy policy emittedFile content =
     \<lparr>filename = file' emittedFile, code = content, map_text = None,
      es5 = legacy, outputPath = outPath, missingTranslation = policy,
      setLocale = (name emittedFile = Some ''main'' \<or> name emittedFile = Some ''vendor'')\<rparr>"

definition queued :: "EmittedFiles \<Rightarrow> string" where
  "queued emittedFile = ''i18n file queued for processing: '' @ file' emittedFile"

definition isMainOrVendor :: "EmittedFiles \<Rightarrow> bool" where
  "isMainOrVendor a \<longleftrightarrow> name a = Some ''main'' \<or> name a = Some ''vendor''"

definition is_error :: "Diagnostic \<Rightarrow> bool" where
  "is_error d \<longleftrightarrow> dtype d = ''error''"

definition error_observed :: "ProcessBundleResult list \<Rightarrow> bool" where
  "error_observed results \<longleftrightarrow> list_ex (\<lambda>r. list_ex is_error (diagnostics r)) results"

definition report_of :: "Diagnostic \<Rightarrow> event" where
  "report_of d = (if is_error d then LoggerError (message d) else LoggerWarn (message d))"

definition diagnostic_events :: "Diagnostic \<Rightarrow> event list" where
  "diagnostic_events d = [SpinnerStop, report_of d, SpinnerStart None]"

definition result_events :: "ProcessBundleResult \<Rightarrow> event list" where
  "result_events r =
     LoggerDebug (''i18n file processed: '' @ result_file r) #
     concat (map diagnostic_events (diagnostics r))"

fun is_report :: "event \<Rightarrow> bool" where
  "is_report (LoggerError msg) = True"
| "is_report (LoggerWarn msg) = True"
| "is_report e = False"

definition copy_event :: "path \<times> path \<Rightarrow> event" where
  "copy_event pair = CopyFile (fst pair) (snd pair)"

definition started :: "world \<Rightarrow> world" where
  "started w = spinner_start (Some ''Generating localized bundles...'') w"

definition failed_with :: "js_error \<Rightarrow> event" where
  "failed_with err = SpinnerFail (''Localized bundle generation failed: '' @ err_message err)"

definition verdict_event :: "bool \<Rightarrow> event" where
  "verdict_event hasErrors =
     (if hasErrors then SpinnerFail ''Localized bundle generation failed.''
      else SpinnerSucceed ''Localized bundle generation complete.'')"

fun is_chatter :: "event \<Rightarrow> bool" where
  "is_chatter (LoggerDebug msg) = True"
| "is_chatter (LoggerError msg) = True"
| "is_chatter (LoggerWarn msg) = True"
| "is_chatter (SpinnerStart text) = True"
| "is_chatter SpinnerStop = True"
| "is_chatter e = False"

fun is_stop :: "event \<Rightarrow> bool" where
  "is_stop ExecutorStop = True"
| "is_stop e = False"

fun is_inline_call :: "event \<Rightarrow> bool" where
  "is_inline_call (ExecutorInlineAll opts) = True"
| "is_inline_call e = False"

fun is_copy_call :: "event \<Rightarrow> bool" where
  "is_copy_call (CopyAssets input ignore basePaths) = True"
| "is_copy_call e = False"

definition eligible_by_spec :: "string list \<Rightarrow> EmittedFiles \<Rightarrow> bool" where
  "eligible_by_spec excluded a \<longleftrightarrow>
     \<not> asset a \<and> extension a = ''.js'' \<and>
     (case name a of None \<Rightarrow> True | Some n \<Rightarrow> n \<notin> set excluded)"

section \<open>Concrete artifacts, disks and executors\<close>

text \<open>
  The artifacts of a small build (a main and a vendor bundle, a lazy chunk without a name,
  a runtime script, a style sheet), a disk that holds some of them under \<open>dist\<close>, errors
  the file system can answer with, and three executors: one whose results carry warnings
  only, one whose first result carries an error, and one that throws after its first
  result.
\<close>

definition no_fault :: "path \<Rightarrow> js_error option" where
  "no_fault p = None"

definition fault_at :: "path \<Rightarrow> js_error \<Rightarrow> path \<Rightarrow> js_error option" where
  "fault_at p e q = (if q = p then Some e else None)"

definition main_js :: EmittedFiles where
  "main_js = \<lparr>name = Some ''main'', file' = ''main.js'', asset = False, extension = ''.js''\<rparr>"

definition vendor_js :: EmittedFiles where
  "vendor_js = \<lparr>name = Some ''vendor'', file' = ''vendor.js'', asset = False, extension = ''.js''\<rparr>"

definition lazy_js :: EmittedFiles where
  "lazy_js = \<lparr>name = None, file' = ''lazy.js'', asset = False, extension = ''.js''\<rparr>"

definition runtime_js :: EmittedFiles where
  "runtime_js = \<lparr>name = Some ''runtime'', file' = ''runtime.js'', asset = False, extension = ''.js''\<rparr>"

definition styles_css :: EmittedFiles where
  "styles_css = \<lparr>name = Some ''styles'', file' = ''styles.css'', asset = True, extension = ''.css''\<rparr>"

definition anon_js :: EmittedFiles where
  "anon_js = \<lparr>name = Some '''', file' = ''anon.js'', asset = False, extension = ''.js''\<rparr>"

definition disk :: world where
  "disk = \<lparr>files = [(''dist/main.js'', ''M''), (''dist/main.js.map'', ''MM''),
                    (''dist/runtime.js'', ''R''), (''dist/styles.css'', ''S'')],
           read_fault = no_fault, unlink_fault = no_fault, copy_fault = no_fault, trace = []\<rparr>"

definition main_action :: InlineOptions where
  "main_action = \<lparr>filename = ''main.js'', code = ''M'', map_text = Some ''MM'', es5 = False,
     outputPath = ''out'', missingTranslation = Some MtWarning, setLocale = True\<rparr>"

definition eperm :: js_error where
  "eperm = \<lparr>err_code = Some ''EPERM'', err_message = ''EPERM: operation not permitted''\<rparr>"

definition eacces :: js_error where
  "eacces = \<lparr>err_code = Some ''EACCES'', err_message = ''EACCES: permission denied''\<rparr>"

definition crash :: js_error where
  "crash = \<lparr>err_code = None, err_message = ''worker exited''\<rparr>"

definition warnings_only :: BundleActionExecutor where
  "warnings_only opts =
     (map (\<lambda>opt. \<lparr>result_file = filename opt,
                  diagnostics = [\<lparr>dtype = ''warning'', message = ''no translation''\<rparr>]\<rparr>) opts,
      None)"

definition error_then_warning :: BundleActionExecutor where
  "error_then_warning opts =
     ([\<lparr>result_file = ''a.js'',
        diagnostics = [\<lparr>dtype = ''error'', message = ''e1''\<rparr>, \<lparr>dtype = ''warning'', message = ''w1''\<rparr>]\<rparr>,
       \<lparr>result_file = ''b.js'', diagnostics = [\<lparr>dtype = ''warning'', message = ''w2''\<rparr>]\<rparr>],
      None)"

definition crashing :: BundleActionExecutor where
  "crashing opts = ([\<lparr>result_file = ''main.js'', diagnostics = []\<rparr>], Some crash)"

definition lazy_disk :: world where
  "lazy_disk = \<lparr>files = [(''dist/main.js'', ''M''), (''dist/vendor.js'', ''V''),
                         (''dist/lazy.js'', ''L''), (''dist/styles.css'', ''S'')],
                read_fault = no_fault, unlink_fault = no_fault, copy_fault = no_fault, trace = []\<rparr>"

definition anon_disk :: world where
  "anon_disk = \<lparr>files = [(''dist/anon.js'', ''A'')],
                read_fault = no_fault, unlink_fault = no_fault, copy_fault = no_fault, trace = []\<rparr>"

definition anon_action :: InlineOptions where
  "anon_action = \<lparr>filename = ''anon.js'', code = ''A'', map_text = None, es5 = False,
     outputPath = ''out'', missingTranslation = None, setLocale = False\<rparr>"

definition locked_disk :: world where
  "locked_disk = disk\<lparr>unlink_fault :=
     (\<lambda>q. if q = ''dist/main.js'' \<or> q = ''dist/main.js.map'' then Some eperm else None)\<rparr>"

definition primary_locked_disk :: world where
  "primary_locked_disk = disk\<lparr>unlink_fault := fault_at ''dist/main.js'' eperm\<rparr>"

definition map_locked_disk :: world where
  "map_locked_disk = disk\<lparr>unlink_fault := fault_at ''dist/main.js.map'' eperm\<rparr>"

definition map_unreadable_disk :: world where
  "map_unreadable_disk = disk\<lparr>read_fault := fault_at ''dist/main.js.map'' eacces\<rparr>"

definition locked_unreadable_disk :: world where
  "locked_unreadable_disk =
     disk\<lparr>read_fault := fault_at ''dist/main.js.map'' eacces,
          unlink_fault := fault_at ''dist/main.js'' eperm\<rparr>"

section \<open>Lemmas about the stages\<close>

text \<open>
  First the frame of each primitive: what an event, a failed or a successful unlink leave
  unchanged. Then the loop body by cases (the primary read throws, the map read throws,
  there is no map, there is a map), the loop by induction on the artifacts, the loops over
  results and diagnostics, and the copies. \<open>run_cases\<close> puts the stages together: the four
  ways in which a run ends, each with its trace.
\<close>

lemmas io_defs = logger_debug_def logger_error_def logger_warn_def spinner_start_def
  spinner_stop_def spinner_fail_def spinner_succeed_def executor_stop_def

lemma emit_fields [simp]:
  "files (emit e w) = files w"
  "read_fault (emit e w) = read_fault w"
  "unlink_fault (emit e w) = unlink_fault w"
  "copy_fault (emit e w) = copy_fault w"
  "trace (emit e w) = trace w @ [e]"
  by (simp_all add: emit_def)

lemma readFileSync_emit [simp]: "readFileSync p (emit e w) = readFileSync p w"
  by (simp add: readFileSync_def split: option.splits)

lemma debug_only_refl [simp]: "debug_only w w"
  by (simp add: debug_only_def)

lemma debug_only_trans: "debug_only w w1 \<Longrightarrow> debug_only w1 w2 \<Longrightarrow> debug_only w w2"
  by (auto simp: debug_only_def)

lemma debug_only_logger [simp]: "debug_only w (logger_debug msg w)"
  by (simp add: debug_only_def logger_debug_def)

lemma debug_only_filter:
  "debug_only w w' \<Longrightarrow> (\<And>e. P e \<Longrightarrow> \<not> is_debug e) \<Longrightarrow> filter P (trace w') = filter P (trace w)"
  unfolding debug_only_def list_all_iff by (fastforce simp: filter_empty_conv)

lemma try_unlink_faults [simp]:
  "read_fault (try_unlink p w) = read_fault w"
  "unlink_fault (try_unlink p w) = unlink_fault w"
  "copy_fault (try_unlink p w) = copy_fault w"
  by (simp_all add: try_unlink_def unlinkSync_def logger_debug_def split: option.splits)

lemma try_unlink_debug [simp]: "debug_only w (try_unlink p w)"
  by (simp add: try_unlink_def unlinkSync_def debug_only_def logger_debug_def split: option.splits)

lemma map_of_filter_other: "q \<noteq> p \<Longrightarrow> map_of (filter (\<lambda>entry. fst entry \<noteq> p) xs) q = map_of xs q"
  by (induction xs) auto

lemma try_unlink_other: "q \<noteq> p \<Longrightarrow> map_of (files (try_unlink p w)) q = map_of (files w) q"
  by (simp add: try_unlink_def unlinkSync_def logger_debug_def map_of_filter_other split: option.splits)

lemma readFileSync_try_unlink: "q \<noteq> p \<Longrightarrow> readFileSync q (try_unlink p w) = readFileSync q w"
  by (simp add: readFileSync_def try_unlink_other split: option.splits)

lemma try_unlink_failed:
  "unlinkSync p w = Inl e \<Longrightarrow> try_unlink p w = logger_debug (unable_to_delete p e) w"
  by (simp add: try_unlink_def)

lemma map_path_neq [simp]: "p @ ''.map'' \<noteq> p" "p \<noteq> p @ ''.map''"
  by simp_all

lemma inlineOptionsOf_read_fails:
  "readFileSync (path_join ep (file' a)) w = Inl e \<Longrightarrow>
   inlineOptionsOf ep bop lg pol a w = (Inl e, w)"
  by (simp add: inlineOptionsOf_def)

lemma inlineOptionsOf_map_raises:
  "readFileSync (path_join ep (file' a)) w = Inr c \<Longrightarrow>
   readFileSync (path_join ep (file' a) @ ''.map'') w = Inl err \<Longrightarrow>
   err_code err \<noteq> Some ''ENOENT'' \<Longrightarrow>
   inlineOptionsOf ep bop lg pol a w = (Inl err, try_unlink (path_join ep (file' a)) w)"
  by (simp add: inlineOptionsOf_def Let_def readFileSync_try_unlink)

lemma inlineOptionsOf_no_map:
  "readFileSync (path_join ep (file' a)) w = Inr c \<Longrightarrow>
   readFileSync (path_join ep (file' a) @ ''.map'') w = Inl err \<Longrightarrow>
   err_code err = Some ''ENOENT'' \<Longrightarrow>
   inlineOptionsOf ep bop lg pol a w =
     (Inr (actionOf bop lg pol a c, [path_join ep (file' a)]),
      logger_debug (queued a) (try_unlink (path_join ep (file' a)) w))"
  by (simp add: inlineOptionsOf_def Let_def readFileSync_try_unlink actionOf_def queued_def)

lemma inlineOptionsOf_with_map:
  "readFileSync (path_join ep (file' a)) w = Inr c \<Longrightarrow>
   readFileSync (path_join ep (file' a) @ ''.map'') w = Inr m \<Longrightarrow>
   inlineOptionsOf ep bop lg pol a w =
     (Inr ((actionOf bop lg pol a c)\<lparr>map_text := Some m\<rparr>,
           [path_join ep (file' a), path_join ep (file' a) @ ''.map'']),
      logger_debug (queued a)
        (try_unlink (path_join ep (file' a) @ ''.map'') (try_unlink (path_join ep (file' a)) w)))"
  by (simp add: inlineOptionsOf_def Let_def readFileSync_try_unlink actionOf_def queued_def)

lemma inlineOptionsOf_cases:
  obtains
    (read_fails) e where
      "readFileSync (path_join ep (file' a)) w = Inl e"
      "inlineOptionsOf ep bop lg pol a w = (Inl e, w)"
  | (map_raises) c err where
      "readFileSync (path_join ep (file' a)) w = Inr c"
      "readFileSync (path_join ep (file' a) @ ''.map'') w = Inl err"
      "err_code err \<noteq> Some ''ENOENT''"
      "inlineOptionsOf ep bop lg pol a w = (Inl err, try_unlink (path_join ep (file' a)) w)"
  | (no_map) c err where
      "readFileSync (path_join ep (file' a)) w = Inr c"
      "readFileSync (path_join ep (file' a) @ ''.map'') w = Inl err"
      "err_code err = Some ''ENOENT''"
      "inlineOptionsOf ep bop lg pol a w =
         (Inr (actionOf bop lg pol a c, [path_join ep (file' a)]),
          logger_debug (queued a) (try_unlink (path_join ep (file' a)) w))"
  | (with_map) c m where
      "readFileSync (path_join ep (file' a)) w = Inr c"
      "readFileSync (path_join ep (file' a) @ ''.map'') w = Inr m"
      "inlineOptionsOf ep bop lg pol a w =
         (Inr ((actionOf bop lg pol a c)\<lparr>map_text := Some m\<rparr>,
               [path_join ep (file' a), path_join ep (file' a) @ ''.map'']),
          logger_debug (queued a)
            (try_unlink (path_join ep (file' a) @ ''.map'') (try_unlink (path_join ep (file' a)) w)))"
proof (cases "readFileSync (path_join ep (file' a)) w")
  case (Inl e)
  then show ?thesis using read_fails inlineOptionsOf_read_fails by blast
next
  case (Inr c)
  show ?thesis
  proof (cases "readFileSync (path_join ep (file' a) @ ''.map'') w")
    case (Inl err)
    show ?thesis
    proof (cases "err_code err = Some ''ENOENT''")
      case True
      then show ?thesis using no_map Inr Inl inlineOptionsOf_no_map by blast
    next
      case False
      then show ?thesis using map_raises Inr Inl inlineOptionsOf_map_raises by blast
    qed
  next
    case r: (Inr m)
    then show ?thesis using with_map Inr inlineOptionsOf_with_map by blast
  qed
qed

lemma inlineOptionsOf_frame:
  assumes "inlineOptionsOf ep bop lg pol a w = (r, w')"
  shows "debug_only w w'" "read_fault w' = read_fault w" "unlink_fault w' = unlink_fault w"
    "copy_fault w' = copy_fault w"
proof -
  have "debug_only w w' \<and> read_fault w' = read_fault w \<and> unlink_fault w' = unlink_fault w \<and>
    copy_fault w' = copy_fault w"
  proof (cases rule: inlineOptionsOf_cases [of ep a w bop lg pol])
    case (read_fails e)
    with assms show ?thesis by simp
  next
    case (map_raises c err)
    with assms show ?thesis by auto
  next
    case (no_map c err)
    with assms have "w' = logger_debug (queued a) (try_unlink (path_join ep (file' a)) w)" by simp
    then show ?thesis
      using debug_only_trans [OF try_unlink_debug debug_only_logger] by (simp add: logger_debug_def)
  next
    case (with_map c m)
    with assms have "w' = logger_debug (queued a)
        (try_unlink (path_join ep (file' a) @ ''.map'') (try_unlink (path_join ep (file' a)) w))" by simp
    then show ?thesis
      using debug_only_trans [OF try_unlink_debug debug_only_trans [OF try_unlink_debug debug_only_logger]]
      by (simp add: logger_debug_def)
  qed
  then show "debug_only w w'" "read_fault w' = read_fault w" "unlink_fault w' = unlink_fault w"
    "copy_fault w' = copy_fault w" by simp_all
qed

lemma inlineOptionsOf_success:
  assumes "inlineOptionsOf ep bop lg pol a w = (Inr (action, paths), w')"
  shows "filename action = file' a"
    and "setLocale action = (name a = Some ''main'' \<or> name a = Some ''vendor'')"
    and "readFileSync (path_join ep (file' a)) w = Inr (code action)"
    and "paths = [path_join ep (file' a)] \<and> map_text action = None \<or>
         paths = [path_join ep (file' a), path_join ep (file' a) @ ''.map''] \<and>
         readFileSync (path_join ep (file' a) @ ''.map'') w = Inr (the (map_text action)) \<and>
         map_text action \<noteq> None"
    and "q \<notin> set paths \<Longrightarrow> map_of (files w') q = map_of (files w) q"
proof -
  have "filename action = file' a \<and>
    setLocale action = (name a = Some ''main'' \<or> name a = Some ''vendor'') \<and>
    readFileSync (path_join ep (file' a)) w = Inr (code action) \<and>
    (paths = [path_join ep (file' a)] \<and> map_text action = None \<or>
         paths = [path_join ep (file' a), path_join ep (file' a) @ ''.map''] \<and>
         readFileSync (path_join ep (file' a) @ ''.map'') w = Inr (the (map_text action)) \<and>
         map_text action \<noteq> None) \<and>
    (q \<notin> set paths \<longrightarrow> map_of (files w') q = map_of (files w) q)"
  proof (cases rule: inlineOptionsOf_cases [of ep a w bop lg pol])
    case (read_fails e)
    with assms show ?thesis by simp
  next
    case (map_raises c err)
    with assms show ?thesis by simp
  next
    case (no_map c err)
    with assms show ?thesis
      by (auto simp: actionOf_def logger_debug_def try_unlink_other)
  next
    case (with_map c m)
    with assms show ?thesis
      by (auto simp: actionOf_def logger_debug_def try_unlink_other)
  qed
  then show "filename action = file' a"
    and "setLocale action = (name a = Some ''main'' \<or> name a = Some ''vendor'')"
    and "readFileSync (path_join ep (file' a)) w = Inr (code action)"
    and "paths = [path_join ep (file' a)] \<and> map_text action = None \<or>
         paths = [path_join ep (file' a), path_join ep (file' a) @ ''.map''] \<and>
         readFileSync (path_join ep (file' a) @ ''.map'') w = Inr (the (map_text action)) \<and>
         map_text action \<noteq> None"
    and "q \<notin> set paths \<Longrightarrow> map_of (files w') q = map_of (files w) q"
    by simp_all
qed

lemma loop_skip [simp]:
  "skipped sepn a \<Longrightarrow>
   inlineOptionsLoop sepn ep bop lg pol (a # rest) opts orig w =
   inlineOptionsLoop sepn ep bop lg pol rest opts orig w"
  by simp

lemma loop_raise:
  "\<not> skipped sepn a \<Longrightarrow> inlineOptionsOf ep bop lg pol a w = (Inl e, w') \<Longrightarrow>
   inlineOptionsLoop sepn ep bop lg pol (a # rest) opts orig w = (Inl e, w')"
  by simp

lemma loop_step:
  "\<not> skipped sepn a \<Longrightarrow> inlineOptionsOf ep bop lg pol a w = (Inr (action, paths), w') \<Longrightarrow>
   inlineOptionsLoop sepn ep bop lg pol (a # rest) opts orig w =
   inlineOptionsLoop sepn ep bop lg pol rest (opts @ [action]) (orig @ paths) w'"
  by simp

lemma loop_append:
  "inlineOptionsLoop sepn ep bop lg pol (xs @ ys) opts orig w =
   (case inlineOptionsLoop sepn ep bop lg pol xs opts orig w of
      (Inl e, w') \<Rightarrow> (Inl e, w')
    | (Inr (opts', orig'), w') \<Rightarrow> inlineOptionsLoop sepn ep bop lg pol ys opts' orig' w')"
  by (induction xs arbitrary: opts orig w) (auto split: prod.splits sum.splits)

lemma loop_frame:
  "inlineOptionsLoop sepn ep bop lg pol efs opts orig w = (r, w') \<Longrightarrow>
   debug_only w w' \<and> read_fault w' = read_fault w \<and> unlink_fault w' = unlink_fault w \<and>
   copy_fault w' = copy_fault w"
proof (induction efs arbitrary: opts orig w)
  case Nil
  then show ?case by simp
next
  case (Cons a rest)
  show ?case
  proof (cases "skipped sepn a")
    case True
    with Cons show ?thesis by simp
  next
    case False
    obtain r1 w1 where body: "inlineOptionsOf ep bop lg pol a w = (r1, w1)"
      by (cases "inlineOptionsOf ep bop lg pol a w")
    note fr = inlineOptionsOf_frame [OF body]
    show ?thesis
    proof (cases r1)
      case (Inl e)
      with Cons.prems False body have "w' = w1" by simp
      with fr show ?thesis by simp
    next
      case (Inr ap)
      obtain action paths where ap: "ap = (action, paths)" by (cases ap)
      from Cons.prems False body Inr ap
      have "inlineOptionsLoop sepn ep bop lg pol rest (opts @ [action]) (orig @ paths) w1 = (r, w')"
        by simp
      from Cons.IH [OF this] fr show ?thesis
        by (auto intro: debug_only_trans)
    qed
  qed
qed

lemma loop_options:
  "inlineOptionsLoop sepn ep bop lg pol efs opts orig w = (Inr (opts', orig'), w') \<Longrightarrow>
   \<exists>new. opts' = opts @ new \<and>
     map filename new = map file' (filter (\<lambda>a. \<not> skipped sepn a) efs) \<and>
     map setLocale new = map isMainOrVendor (filter (\<lambda>a. \<not> skipped sepn a) efs)"
proof (induction efs arbitrary: opts orig w)
  case Nil
  then show ?case by simp
next
  case (Cons a rest)
  show ?case
  proof (cases "skipped sepn a")
    case True
    with Cons show ?thesis by simp
  next
    case False
    obtain r1 w1 where body: "inlineOptionsOf ep bop lg pol a w = (r1, w1)"
      by (cases "inlineOptionsOf ep bop lg pol a w")
    show ?thesis
    proof (cases r1)
      case (Inl e)
      with Cons.prems False body show ?thesis by simp
    next
      case (Inr ap)
      obtain action paths where ap: "ap = (action, paths)" by (cases ap)
      from Cons.prems False body Inr ap
      have "inlineOptionsLoop sepn ep bop lg pol rest (opts @ [action]) (orig @ paths) w1 =
          (Inr (opts', orig'), w')"
        by simp
      from Cons.IH [OF this] obtain new where new: "opts' = (opts @ [action]) @ new"
        "map filename new = map file' (filter (\<lambda>a. \<not> skipped sepn a) rest)"
        "map setLocale new = map isMainOrVendor (filter (\<lambda>a. \<not> skipped sepn a) rest)"
        by blast
      from body Inr ap have b: "inlineOptionsOf ep bop lg pol a w = (Inr (action, paths), w1)"
        by simp
      have "opts' = opts @ (action # new)" using new(1) by simp
      moreover have "map filename (action # new) = map file' (filter (\<lambda>a. \<not> skipped sepn a) (a # rest))"
        using False new(2) inlineOptionsOf_success(1) [OF b] by simp
      moreover have "map setLocale (action # new) =
          map isMainOrVendor (filter (\<lambda>a. \<not> skipped sepn a) (a # rest))"
        using False new(3) inlineOptionsOf_success(2) [OF b] by (simp add: isMainOrVendor_def)
      ultimately show ?thesis by blast
    qed
  qed
qed

lemma loop_paths:
  "inlineOptionsLoop sepn ep bop lg pol efs opts orig w = (Inr (opts', orig'), w') \<Longrightarrow>
   \<exists>newp. orig' = orig @ newp \<and>
     (\<forall>q. q \<notin> set newp \<longrightarrow> map_of (files w') q = map_of (files w) q) \<and>
     (\<forall>a\<in>set efs. \<not> skipped sepn a \<longrightarrow> path_join ep (file' a) \<in> set newp) \<and>
     (\<forall>q\<in>set newp. \<exists>f. q = path_join ep f)"
proof (induction efs arbitrary: opts orig w)
  case Nil
  then show ?case by simp
next
  case (Cons a rest)
  show ?case
  proof (cases "skipped sepn a")
    case True
    with Cons show ?thesis by simp
  next
    case False
    obtain r1 w1 where body: "inlineOptionsOf ep bop lg pol a w = (r1, w1)"
      by (cases "inlineOptionsOf ep bop lg pol a w")
    show ?thesis
    proof (cases r1)
      case (Inl e)
      with Cons.prems False body show ?thesis by simp
    next
      case (Inr ap)
      obtain action paths where ap: "ap = (action, paths)" by (cases ap)
      from body Inr ap have b: "inlineOptionsOf ep bop lg pol a w = (Inr (action, paths), w1)"
        by simp
      from Cons.prems False b
      have "inlineOptionsLoop sepn ep bop lg pol rest (opts @ [action]) (orig @ paths) w1 =
          (Inr (opts', orig'), w')"
        by simp
      from Cons.IH [OF this] obtain newp where newp: "orig' = (orig @ paths) @ newp"
        "\<forall>q. q \<notin> set newp \<longrightarrow> map_of (files w') q = map_of (files w1) q"
        "\<forall>a\<in>set rest. \<not> skipped sepn a \<longrightarrow> path_join ep (file' a) \<in> set newp"
        "\<forall>q\<in>set newp. \<exists>f. q = path_join ep f"
        by blast
      note s = inlineOptionsOf_success [OF b]
      have p_in: "path_join ep (file' a) \<in> set paths" using s(4) by auto
      have shape: "\<forall>q\<in>set paths. \<exists>f. q = path_join ep f"
        using s(4) by (auto simp: path_join_def)
      have "orig' = orig @ (paths @ newp)" using newp(1) by simp
      moreover have "\<forall>q. q \<notin> set (paths @ newp) \<longrightarrow> map_of (files w') q = map_of (files w) q"
        using newp(2) s(5) by simp
      moreover have "\<forall>x\<in>set (a # rest). \<not> skipped sepn x \<longrightarrow> path_join ep (file' x) \<in> set (paths @ newp)"
        using newp(3) p_in by auto
      moreover have "\<forall>q\<in>set (paths @ newp). \<exists>f. q = path_join ep f"
        using newp(4) shape by auto
      ultimately show ?thesis by blast
    qed
  qed
qed

lemma loop_map_paths:
  "inlineOptionsLoop sepn ep bop lg pol efs opts orig w = (Inr (opts', orig'), w') \<Longrightarrow>
   \<exists>new newp. opts' = opts @ new \<and> orig' = orig @ newp \<and>
     (\<forall>opt\<in>set new. map_text opt \<noteq> None \<longrightarrow> path_join ep (filename opt) @ ''.map'' \<in> set newp)"
proof (induction efs arbitrary: opts orig w)
  case Nil
  then show ?case by simp
next
  case (Cons a rest)
  show ?case
  proof (cases "skipped sepn a")
    case True
    with Cons show ?thesis by simp
  next
    case False
    obtain r1 w1 where body: "inlineOptionsOf ep bop lg pol a w = (r1, w1)"
      by (cases "inlineOptionsOf ep bop lg pol a w")
    show ?thesis
    proof (cases r1)
      case (Inl e)
      with Cons.prems False body show ?thesis by simp
    next
      case (Inr ap)
      obtain action paths where ap: "ap = (action, paths)" by (cases ap)
      from body Inr ap have b: "inlineOptionsOf ep bop lg pol a w = (Inr (action, paths), w1)"
        by simp
      from Cons.prems False b
      have "inlineOptionsLoop sepn ep bop lg pol rest (opts @ [action]) (orig @ paths) w1 =
          (Inr (opts', orig'), w')"
        by simp
      from Cons.IH [OF this] obtain new newp where n: "opts' = (opts @ [action]) @ new"
        "orig' = (orig @ paths) @ newp"
        "\<forall>opt\<in>set new. map_text opt \<noteq> None \<longrightarrow> path_join ep (filename opt) @ ''.map'' \<in> set newp"
        by blast
      note s = inlineOptionsOf_success [OF b]
      have "map_text action \<noteq> None \<longrightarrow> path_join ep (filename action) @ ''.map'' \<in> set paths"
        using s(1) s(4) by auto
      then have "\<forall>opt\<in>set (action # new). map_text opt \<noteq> None \<longrightarrow>
          path_join ep (filename opt) @ ''.map'' \<in> set (paths @ newp)"
        using n(3) by auto
      moreover have "opts' = opts @ (action # new)" "orig' = orig @ (paths @ newp)"
        using n(1,2) by simp_all
      ultimately show ?thesis by blast
    qed
  qed
qed

lemma reportDiagnostics_spec:
  "reportDiagnostics ds h w = (h', w') \<Longrightarrow>
   h' = (h \<or> list_ex is_error ds) \<and>
   trace w' = trace w @ concat (map diagnostic_events ds) \<and>
   files w' = files w \<and> read_fault w' = read_fault w \<and> unlink_fault w' = unlink_fault w \<and>
   copy_fault w' = copy_fault w"
proof (induction ds arbitrary: h w)
  case Nil
  then show ?case by simp
next
  case (Cons d ds)
  show ?case
  proof (cases "dtype d = ''error''")
    case True
    with Cons.prems have "reportDiagnostics ds True
        (spinner_start None (logger_error (message d) (spinner_stop w))) = (h', w')"
      by (simp add: Let_def)
    from Cons.IH [OF this] True show ?thesis
      by (simp add: io_defs diagnostic_events_def report_of_def is_error_def)
  next
    case False
    with Cons.prems have "reportDiagnostics ds h
        (spinner_start None (logger_warn (message d) (spinner_stop w))) = (h', w')"
      by (simp add: Let_def)
    from Cons.IH [OF this] False show ?thesis
      by (simp add: io_defs diagnostic_events_def report_of_def is_error_def)
  qed
qed

lemma processResults_spec:
  "processResults results h w = (h', w') \<Longrightarrow>
   h' = (h \<or> error_observed results) \<and>
   trace w' = trace w @ concat (map result_events results) \<and>
   files w' = files w \<and> read_fault w' = read_fault w \<and> unlink_fault w' = unlink_fault w \<and>
   copy_fault w' = copy_fault w"
proof (induction results arbitrary: h w)
  case Nil
  then show ?case by (simp add: error_observed_def)
next
  case (Cons r rs)
  obtain h1 w1 where d: "reportDiagnostics (diagnostics r) h
      (logger_debug (''i18n file processed: '' @ result_file r) w) = (h1, w1)"
    by (cases "reportDiagnostics (diagnostics r) h
      (logger_debug (''i18n file processed: '' @ result_file r) w)")
  with Cons.prems have "processResults rs h1 w1 = (h', w')" by simp
  from Cons.IH [OF this] reportDiagnostics_spec [OF d] show ?case
    by (auto simp: error_observed_def result_events_def logger_debug_def)
qed

lemma filter_report_result_events:
  "filter is_report (concat (map result_events results)) =
   map report_of (concat (map diagnostics results))"
proof (induction results)
  case Nil
  then show ?case by simp
next
  case (Cons r rs)
  have "filter is_report (concat (map diagnostic_events ds)) = map report_of ds" for ds
    by (induction ds) (simp_all add: diagnostic_events_def report_of_def)
  with Cons show ?case by (simp add: result_events_def)
qed

lemma copyFile_success:
  "copyFile src dest w = Inr w' \<Longrightarrow>
   trace w' = trace w @ [CopyFile src dest] \<and> read_fault w' = read_fault w \<and>
   unlink_fault w' = unlink_fault w \<and> copy_fault w' = copy_fault w"
  by (auto simp: copyFile_def split: option.splits)

lemma copyFiles_trace:
  "copyFiles plan w = (r, w') \<Longrightarrow>
   \<exists>k\<le>length plan. trace w' = trace w @ map copy_event (take k plan) \<and>
     (r = None \<longrightarrow> k = length plan)"
proof (induction plan arbitrary: w)
  case Nil
  then show ?case by simp
next
  case (Cons pair rest)
  show ?case
  proof (cases "copyFile (fst pair) (snd pair) w")
    case (Inl e)
    with Cons.prems have "w' = w" "r = Some e" by simp_all
    then have "trace w' = trace w @ map copy_event (take 0 (pair # rest))" by simp
    with \<open>r = Some e\<close> show ?thesis by blast
  next
    case (Inr w1)
    with Cons.prems have "copyFiles rest w1 = (r, w')" by simp
    from Cons.IH [OF this] obtain k where k: "k \<le> length rest"
      "trace w' = trace w1 @ map copy_event (take k rest)" "r = None \<longrightarrow> k = length rest"
      by blast
    from copyFile_success [OF Inr] k(2)
    have "trace w' = trace w @ map copy_event (take (Suc k) (pair # rest))"
      by (simp add: copy_event_def)
    with k(1,3) show ?thesis
      by (metis Suc_le_mono length_Cons)
  qed
qed

lemma copyFiles_same_outcome:
  "files v = files w \<Longrightarrow> copy_fault v = copy_fault w \<Longrightarrow>
   fst (copyFiles plan v) = fst (copyFiles plan w)"
proof (induction plan arbitrary: v w)
  case Nil
  then show ?case by simp
next
  case (Cons pair rest)
  show ?case
  proof (cases "copyFile (fst pair) (snd pair) w")
    case (Inl e)
    with Cons.prems have "copyFile (fst pair) (snd pair) v = Inl e"
      by (auto simp: copyFile_def split: option.splits)
    with Inl show ?thesis by simp
  next
    case (Inr w1)
    with Cons.prems obtain v1 where v1: "copyFile (fst pair) (snd pair) v = Inr v1"
      "files v1 = files w1" "copy_fault v1 = copy_fault w1"
      by (auto simp: copyFile_def split: option.splits)
    from Cons.IH [OF v1(2,3)] v1(1) Inr show ?thesis by simp
  qed
qed

lemma copy_plan_same: "files v = files w \<Longrightarrow> copy_plan i ig bs v = copy_plan i ig bs w"
  by (simp add: copy_plan_def)

lemma copyAssets_same_outcome:
  "files v = files w \<Longrightarrow> copy_fault v = copy_fault w \<Longrightarrow>
   fst (copyAssets i ig bs v) = fst (copyAssets i ig bs w)"
  unfolding copyAssets_def
  by (simp add: copy_plan_same [of v w] copyFiles_same_outcome [of v w])

lemma started_fields [simp]:
  "files (started w) = files w" "read_fault (started w) = read_fault w"
  "unlink_fault (started w) = unlink_fault w" "copy_fault (started w) = copy_fault w"
  "trace (started w) = trace w @ [SpinnerStart (Some ''Generating localized bundles...'')]"
  by (simp_all add: started_def spinner_start_def)

lemma consume_frame:
  assumes "emittedFilesToInlineOptions efs sepn ep bop lg pol w = (c, w1)"
  shows "debug_only w w1" "read_fault w1 = read_fault w" "unlink_fault w1 = unlink_fault w"
    "copy_fault w1 = copy_fault w"
  using loop_frame [OF assms [unfolded emittedFilesToInlineOptions_def]] by simp_all

lemma run_cases [consumes 2, case_names consume_fail stream_fail copy_fail completed]:
  assumes C: "emittedFilesToInlineOptions efs sepn ep bop lg pol (started w) = (c, w1)"
    and R: "i18nInlineEmittedFiles ex efs bop ops sepn ep lg pol w = (b, w')"
  obtains
    (consume_fail) err where
      "c = Inl err" "\<not> b"
      "trace w' = trace w1 @ [failed_with err, ExecutorStop]"
  | (stream_fail) opts processed err where
      "c = Inr (opts, processed)" "snd (ex opts) = Some err" "\<not> b"
      "trace w' = trace w1 @ ExecutorInlineAll opts # concat (map result_events (fst (ex opts))) @
         [failed_with err, ExecutorStop]"
  | (copy_fail) opts processed err k where
      "c = Inr (opts, processed)" "snd (ex opts) = None"
      "fst (copyAssets ep (map (path_relative ep) processed) ops w1) = Some err" "\<not> b"
      "trace w' = trace w1 @ ExecutorInlineAll opts # concat (map result_events (fst (ex opts))) @
         CopyAssets ep (map (path_relative ep) processed) ops #
         map copy_event (take k (copy_plan ep (map (path_relative ep) processed) ops w1)) @
         [failed_with err, ExecutorStop]"
  | (completed) opts processed where
      "c = Inr (opts, processed)" "snd (ex opts) = None"
      "fst (copyAssets ep (map (path_relative ep) processed) ops w1) = None"
      "b = (\<not> error_observed (fst (ex opts)))"
      "trace w' = trace w1 @ ExecutorInlineAll opts # concat (map result_events (fst (ex opts))) @
         CopyAssets ep (map (path_relative ep) processed) ops #
         map copy_event (copy_plan ep (map (path_relative ep) processed) ops w1) @
         [ExecutorStop, verdict_event (error_observed (fst (ex opts)))]"
proof (cases c)
  case (Inl err)
  with C R have "b = False" "w' = executor_stop (spinner_fail
      (''Localized bundle generation failed: '' @ err_message err) w1)"
    by (simp_all add: i18nInlineEmittedFiles_def inlineAndCopy_def started_def)
  then show ?thesis using consume_fail [of err] Inl
    by (simp add: io_defs failed_with_def)
next
  case (Inr pr)
  obtain opts processed where pr: "pr = (opts, processed)" by (cases pr)
  obtain h w2 where P: "processResults (fst (ex opts)) False (emit (ExecutorInlineAll opts) w1) = (h, w2)"
    by (cases "processResults (fst (ex opts)) False (emit (ExecutorInlineAll opts) w1)")
  note ps = processResults_spec [OF P]
  have h: "h = error_observed (fst (ex opts))" using ps by simp
  have t2: "trace w2 = trace w1 @ ExecutorInlineAll opts # concat (map result_events (fst (ex opts)))"
    using ps by simp
  have f2: "files w2 = files w1" "copy_fault w2 = copy_fault w1" using ps by simp_all
  show ?thesis
  proof (cases "snd (ex opts)")
    case (Some err)
    with C R Inr pr P have "b = False" "w' = executor_stop (spinner_fail
        (''Localized bundle generation failed: '' @ err_message err) w2)"
      by (simp_all add: i18nInlineEmittedFiles_def inlineAndCopy_def started_def)
    then show ?thesis using stream_fail [of opts processed err] Inr pr Some t2
      by (simp add: io_defs failed_with_def)
  next
    case None
    let ?ig = "map (path_relative ep) processed"
    let ?wc = "emit (CopyAssets ep ?ig ops) w2"
    obtain cr w3 where A: "copyAssets ep ?ig ops ?wc = (cr, w3)"
      by (cases "copyAssets ep ?ig ops ?wc")
    have fc: "files ?wc = files w1" "copy_fault ?wc = copy_fault w1"
      using f2 by simp_all
    have plan: "copy_plan ep ?ig ops ?wc = copy_plan ep ?ig ops w1"
      using fc(1) by (rule copy_plan_same)
    have cr: "fst (copyAssets ep ?ig ops w1) = cr"
      using copyAssets_same_outcome [OF fc, of ep ?ig ops] A by simp
    from A have "copyFiles (copy_plan ep ?ig ops w1) ?wc = (cr, w3)"
      by (simp add: copyAssets_def plan)
    from copyFiles_trace [OF this] obtain k where k: "k \<le> length (copy_plan ep ?ig ops w1)"
      "trace w3 = trace w2 @ CopyAssets ep ?ig ops # map copy_event (take k (copy_plan ep ?ig ops w1))"
      "cr = None \<longrightarrow> k = length (copy_plan ep ?ig ops w1)"
      by auto
    show ?thesis
    proof (cases cr)
      case (Some err)
      with C R Inr pr P None A have "b = False" "w' = executor_stop (spinner_fail
          (''Localized bundle generation failed: '' @ err_message err) w3)"
        by (simp_all add: i18nInlineEmittedFiles_def inlineAndCopy_def started_def)
      then show ?thesis
        using copy_fail [of opts processed err k] Inr pr None Some cr t2 k(2)
        by (simp add: io_defs failed_with_def)
    next
      case none: None
      with C R Inr pr P None A have "b = (\<not> h)"
        "w' = emit (verdict_event h) (executor_stop w3)"
        by (auto simp: i18nInlineEmittedFiles_def inlineAndCopy_def started_def Let_def io_defs
            verdict_event_def)
      then show ?thesis
        using completed [of opts processed] Inr pr None none cr t2 k(2,3) h
        by (simp add: io_defs)
    qed
  qed
qed

lemma debug_is_chatter: "is_debug e \<Longrightarrow> is_chatter e"
  by (cases e) simp_all

lemma report_is_chatter: "is_report e \<Longrightarrow> is_chatter e"
  by (cases e) simp_all

lemma result_events_chatter: "e \<in> set (concat (map result_events results)) \<Longrightarrow> is_chatter e"
  by (auto simp: result_events_def diagnostic_events_def report_of_def split: if_splits)

lemma filter_result_events:
  "(\<And>e. P e \<Longrightarrow> \<not> is_chatter e) \<Longrightarrow> filter P (concat (map result_events results)) = []"
  unfolding filter_empty_conv using result_events_chatter by blast

lemma filter_copy_events:
  "(\<And>s d. \<not> P (CopyFile s d)) \<Longrightarrow> filter P (map copy_event plan) = []"
  by (simp add: filter_empty_conv copy_event_def)

lemma not_chatter_simps [simp]:
  "is_stop e \<Longrightarrow> \<not> is_chatter e" "is_inline_call e \<Longrightarrow> \<not> is_chatter e"
  "is_copy_call e \<Longrightarrow> \<not> is_chatter e"
  by (cases e; simp)+

lemma consume_filter:
  assumes "emittedFilesToInlineOptions efs sepn ep bop lg pol (started w) = (c, w1)"
    and "\<And>e. P e \<Longrightarrow> \<not> is_chatter e"
  shows "filter P (trace w1) = filter P (trace w)"
proof -
  have "filter P (trace w1) = filter P (trace (started w))"
    using consume_frame(1) [OF assms(1)] assms(2) debug_is_chatter
    by (blast intro: debug_only_filter)
  also have "\<dots> = filter P (trace w)" using assms(2) [of "SpinnerStart _"] by auto
  finally show ?thesis .
qed

lemmas tail_defs = failed_with_def verdict_event_def

lemma copy_plan_member:
  "(src, dest) \<in> set (copy_plan input ignore basePaths w) \<Longrightarrow>
   path_relative input src \<notin> set ignore"
  by (auto simp: copy_plan_def split: if_splits)

lemma copy_plan_covers:
  "(p, content) \<in> set (files w) \<Longrightarrow> under input p \<Longrightarrow> path_relative input p \<notin> set ignore \<Longrightarrow>
   base \<in> set basePaths \<Longrightarrow>
   (p, path_join base (path_relative input p)) \<in> set (copy_plan input ignore basePaths w)"
  by (auto simp: copy_plan_def intro!: bexI [of _ "(p, content)"])

lemma under_join [simp]: "under dir (path_join dir f)"
  by (simp add: under_def path_join_def)

lemma relative_join [simp]: "path_relative dir (path_join dir f) = f"
  by (simp add: path_relative_def path_join_def)

lemma copy_event_in_trace:
  assumes "CopyFile p d \<in> set (trace w')" "CopyFile p d \<notin> set (trace w)"
    and C: "emittedFilesToInlineOptions efs sepn ep bop lg pol (started w) = (c, w1)"
    and R: "i18nInlineEmittedFiles ex efs bop ops sepn ep lg pol w = (b, w')"
  shows "\<exists>opts processed. c = Inr (opts, processed) \<and>
    (p, d) \<in> set (copy_plan ep (map (path_relative ep) processed) ops w1)"
proof -
  obtain devs where devs: "trace w1 = trace (started w) @ devs" "list_all is_debug devs"
    using consume_frame(1) [OF C] by (auto simp: debug_only_def)
  have "CopyFile p d \<notin> set devs" using devs(2) by (auto simp: list_all_iff)
  with devs(1) assms(2) have n1: "CopyFile p d \<notin> set (trace w1)" by simp
  have n2: "CopyFile p d \<notin> set (concat (map result_events rs))" for rs
    using result_events_chatter [of "CopyFile p d" rs] by auto
  have take: "CopyFile p d \<in> set (map copy_event (take k plan)) \<Longrightarrow> (p, d) \<in> set plan" for k plan
    by (auto simp: copy_event_def dest: in_set_takeD)
  have whole: "CopyFile p d \<in> set (map copy_event plan) \<Longrightarrow> (p, d) \<in> set plan" for plan
    by (auto simp: copy_event_def)
  from C R show ?thesis
  proof (cases rule: run_cases)
    case (consume_fail err)
    with assms(1) n1 show ?thesis by (simp add: tail_defs)
  next
    case (stream_fail opts processed err)
    with assms(1) n1 n2 show ?thesis by (simp add: tail_defs)
  next
    case (copy_fail opts processed err k)
    with assms(1) n1 n2 have "CopyFile p d \<in> set (map copy_event
        (take k (copy_plan ep (map (path_relative ep) processed) ops w1)))"
      by (simp add: tail_defs)
    from take [OF this] copy_fail(1) show ?thesis by simp
  next
    case (completed opts processed)
    with assms(1) n1 n2 have "CopyFile p d \<in> set (map copy_event
        (copy_plan ep (map (path_relative ep) processed) ops w1))"
      by (auto simp: tail_defs split: if_splits)
    from whole [OF this] completed(1) show ?thesis by simp
  qed
qed

lemma consumed_never_copied:
  assumes ok: "fst (emittedFilesToInlineOptions efs sepn ep bop lg pol (started w)) = Inr (opts, processed)"
    and p: "p \<in> set processed"
    and ev: "CopyFile p d \<in> set (trace (snd (i18nInlineEmittedFiles ex efs bop ops sepn ep lg pol w)))"
  shows "CopyFile p d \<in> set (trace w)"
proof (rule ccontr)
  assume new: "CopyFile p d \<notin> set (trace w)"
  obtain c w1 where C: "emittedFilesToInlineOptions efs sepn ep bop lg pol (started w) = (c, w1)"
    by (cases "emittedFilesToInlineOptions efs sepn ep bop lg pol (started w)")
  obtain b w' where R: "i18nInlineEmittedFiles ex efs bop ops sepn ep lg pol w = (b, w')"
    by (cases "i18nInlineEmittedFiles ex efs bop ops sepn ep lg pol w")
  from ev R have "CopyFile p d \<in> set (trace w')" by simp
  from copy_event_in_trace [OF this new C R] ok C
  have "(p, d) \<in> set (copy_plan ep (map (path_relative ep) processed) ops w1)" by simp
  from copy_plan_member [OF this] p show False by simp
qed

lemma consume_paths:
  assumes "emittedFilesToInlineOptions efs sepn ep bop lg pol w = (Inr (opts, processed), w1)"
  shows "q \<notin> set processed \<Longrightarrow> map_of (files w1) q = map_of (files w) q"
    and "a \<in> set efs \<Longrightarrow> \<not> skipped sepn a \<Longrightarrow> path_join ep (file' a) \<in> set processed"
    and "q \<in> set processed \<Longrightarrow> \<exists>f. q = path_join ep f"
    and "opt \<in> set opts \<Longrightarrow> map_text opt \<noteq> None \<Longrightarrow> path_join ep (filename opt) @ ''.map'' \<in> set processed"
  using loop_paths [OF assms [unfolded emittedFilesToInlineOptions_def]]
    loop_map_paths [OF assms [unfolded emittedFilesToInlineOptions_def]]
  by auto

lemma consume_options:
  assumes "emittedFilesToInlineOptions efs sepn ep bop lg pol w = (Inr (opts, processed), w1)"
  shows "map filename opts = map file' (filter (\<lambda>a. \<not> skipped sepn a) efs)"
    and "map setLocale opts = map isMainOrVendor (filter (\<lambda>a. \<not> skipped sepn a) efs)"
  using loop_options [OF assms [unfolded emittedFilesToInlineOptions_def]] by auto

lemma map_pair_eq:
  "map f xs = map f' ys \<Longrightarrow> map g xs = map g' ys \<Longrightarrow>
   map (\<lambda>x. (f x, g x)) xs = map (\<lambda>y. (f' y, g' y)) ys"
  by (induction xs arbitrary: ys) auto

lemma unlinkSync_fails_files: "unlinkSync p w = Inl e \<Longrightarrow> files (try_unlink p w) = files w"
  by (simp add: try_unlink_def logger_debug_def)

lemma map_of_filter_self: "map_of (filter (\<lambda>entry. fst entry \<noteq> p) xs) p = None"
  by (induction xs) auto

lemma try_unlink_removed:
  "unlink_fault w p = None \<Longrightarrow> map_of (files (try_unlink p w)) p = None"
  by (simp add: try_unlink_def unlinkSync_def logger_debug_def map_of_filter_self
      split: option.splits)

lemma unlinkSync_fails_same:
  "unlink_fault v = unlink_fault w \<Longrightarrow> map_of (files v) q = map_of (files w) q \<Longrightarrow>
   unlinkSync q w = Inl e \<Longrightarrow> unlinkSync q v = Inl e"
  by (auto simp: unlinkSync_def split: option.splits)

lemma try_unlink_logs:
  "unlinkSync p w = Inl e \<Longrightarrow> LoggerDebug (unable_to_delete p e) \<in> set (trace (try_unlink p w))"
  by (simp add: try_unlink_failed logger_debug_def)

lemma debug_only_set: "debug_only w w' \<Longrightarrow> set (trace w) \<subseteq> set (trace w')"
  by (auto simp: debug_only_def)

lemma debug_only_prefix:
  "debug_only w w' \<Longrightarrow> trace w = t @ [e] \<Longrightarrow> \<exists>evs. trace w' = t @ e # evs"
  by (auto simp: debug_only_def)

lemma undeleted_primary_recorded:
  assumes del: "unlinkSync (path_join ep (file' a)) v = Inl e"
    and ok: "fst (inlineOptionsOf ep bop lg pol a v) = Inr (action, paths)"
  shows "path_join ep (file' a) \<in> set paths \<and>
    map_of (files (snd (inlineOptionsOf ep bop lg pol a v))) (path_join ep (file' a)) =
      map_of (files v) (path_join ep (file' a))"
proof -
  obtain v' where b: "inlineOptionsOf ep bop lg pol a v = (Inr (action, paths), v')"
    using ok by (cases "inlineOptionsOf ep bop lg pol a v") simp
  have mem: "path_join ep (file' a) \<in> set paths"
    using inlineOptionsOf_success(4) [OF b] by auto
  have f1: "files (try_unlink (path_join ep (file' a)) v) = files v"
    using del by (rule unlinkSync_fails_files)
  have "map_of (files v') (path_join ep (file' a)) = map_of (files v) (path_join ep (file' a))"
  proof (cases rule: inlineOptionsOf_cases [of ep a v bop lg pol])
    case (read_fails e')
    with b show ?thesis by simp
  next
    case (map_raises c err)
    with b show ?thesis by simp
  next
    case (no_map c err)
    with b f1 show ?thesis by (auto simp: logger_debug_def)
  next
    case (with_map c m)
    with b f1 show ?thesis by (auto simp: logger_debug_def try_unlink_other)
  qed
  with mem b show ?thesis by simp
qed

lemmas run_defs = i18nInlineEmittedFiles_def inlineAndCopy_def emittedFilesToInlineOptions_def
  inlineOptionsOf_def skipped_def readFileSync_def unlinkSync_def try_unlink_def path_join_def
  path_relative_def under_def copyAssets_def copy_plan_def copyFile_def emit_def io_defs enoent_def
  unable_to_delete_def toString_def started_def Let_def

lemmas input_defs = no_fault_def fault_at_def main_js_def vendor_js_def lazy_js_def runtime_js_def
  styles_css_def anon_js_def disk_def main_action_def eperm_def eacces_def crash_def
  warnings_only_def error_then_warning_def crashing_def

lemmas more_input_defs = lazy_disk_def anon_disk_def anon_action_def locked_disk_def
  primary_locked_disk_def map_locked_disk_def map_unreadable_disk_def

section \<open>The claims\<close>

subsection \<open>C1: the returned boolean\<close>

text \<open>
  Claim C1. For every run of \<open>i18nInlineEmittedFiles\<close> the returned boolean is true if and
  only if no fatal exception occurred (consumption returned its options, the result stream
  ended without throwing, the copy of the remaining files did not fail) and no result of
  the stream carried a diagnostic of type \<open>'error'\<close>. Diagnostics of any other type, warnings
  among them, do not enter the condition. Whether the copy fails depends on the files and
  the faults only, so it is stated on the world that consumption leaves.
\<close>

theorem verdict_iff:
  "fst (i18nInlineEmittedFiles ex efs bop ops sepn ep lg pol w) \<longleftrightarrow>
   (case emittedFilesToInlineOptions efs sepn ep bop lg pol (started w) of
      (Inl err, w1) \<Rightarrow> False
    | (Inr (opts, processed), w1) \<Rightarrow>
        snd (ex opts) = None \<and>
        fst (copyAssets ep (map (path_relative ep) processed) ops w1) = None \<and>
        \<not> error_observed (fst (ex opts)))"
proof -
  obtain c w1 where C: "emittedFilesToInlineOptions efs sepn ep bop lg pol (started w) = (c, w1)"
    by (cases "emittedFilesToInlineOptions efs sepn ep bop lg pol (started w)")
  obtain b w' where R: "i18nInlineEmittedFiles ex efs bop ops sepn ep lg pol w = (b, w')"
    by (cases "i18nInlineEmittedFiles ex efs bop ops sepn ep lg pol w")
  from C R show ?thesis
    by (cases rule: run_cases) (simp_all add: C R)
qed

text \<open>Three runs on the same disk: warnings only, an error among the diagnostics, and an
  executor that throws in the middle of the stream.\<close>

theorem verdict_iff_witness:
  "fst (i18nInlineEmittedFiles warnings_only [main_js, styles_css] ''out'' [''out/fr''] []
          ''dist'' False (Some MtWarning) disk) \<and>
   \<not> fst (i18nInlineEmittedFiles error_then_warning [main_js, styles_css] ''out'' [''out/fr''] []
          ''dist'' False (Some MtWarning) disk) \<and>
   \<not> fst (i18nInlineEmittedFiles crashing [main_js, styles_css] ''out'' [''out/fr''] []
          ''dist'' False (Some MtWarning) disk)"
  using verdict_iff [of warnings_only "[main_js, styles_css]" "''out''" "[''out/fr'']" "[]"
      "''dist''" False "Some MtWarning" disk]
    verdict_iff [of error_then_warning "[main_js, styles_css]" "''out''" "[''out/fr'']" "[]"
      "''dist''" False "Some MtWarning" disk]
    verdict_iff [of crashing "[main_js, styles_css]" "''out''" "[''out/fr'']" "[]"
      "''dist''" False "Some MtWarning" disk]
  by (simp add: run_defs input_defs error_observed_def is_error_def)

subsection \<open>C2: consumed and copied paths\<close>

text \<open>
  Claim C2, as amended. In a run without a fatal error (consumption returns, the stream
  ends, the copy does not fail): no consumed path is the source of a copy made by the run,
  into any output root; every artifact that is not skipped is among the consumed paths;
  and every artifact whose file is on disk and is not a consumed path is copied into
  every output root. The copy is the reconciler of the specification.
\<close>

theorem consumed_and_copied_cover:
  assumes ok: "fst (emittedFilesToInlineOptions efs sepn ep bop lg pol (started w)) = Inr (opts, processed)"
    and stream: "snd (ex opts) = None"
    and copy: "fst (copyAssets ep (map (path_relative ep) processed) ops
        (snd (emittedFilesToInlineOptions efs sepn ep bop lg pol (started w)))) = None"
  shows "(\<forall>p\<in>set processed. \<forall>d.
            CopyFile p d \<in> set (trace (snd (i18nInlineEmittedFiles ex efs bop ops sepn ep lg pol w)))
            \<longrightarrow> CopyFile p d \<in> set (trace w)) \<and>
         (\<forall>a\<in>set efs. \<not> skipped sepn a \<longrightarrow> path_join ep (file' a) \<in> set processed) \<and>
         (\<forall>a\<in>set efs. \<forall>content.
            map_of (files w) (path_join ep (file' a)) = Some content \<and>
            path_join ep (file' a) \<notin> set processed \<longrightarrow>
            (\<forall>base\<in>set ops.
               CopyFile (path_join ep (file' a)) (path_join base (file' a))
                 \<in> set (trace (snd (i18nInlineEmittedFiles ex efs bop ops sepn ep lg pol w)))))"
proof -
  obtain c w1 where C: "emittedFilesToInlineOptions efs sepn ep bop lg pol (started w) = (c, w1)"
    by (cases "emittedFilesToInlineOptions efs sepn ep bop lg pol (started w)")
  obtain b w' where R: "i18nInlineEmittedFiles ex efs bop ops sepn ep lg pol w = (b, w')"
    by (cases "i18nInlineEmittedFiles ex efs bop ops sepn ep lg pol w")
  from ok C have C': "emittedFilesToInlineOptions efs sepn ep bop lg pol (started w) = (Inr (opts, processed), w1)"
    by simp
  note cp = consume_paths [OF C']
  have one: "\<forall>p\<in>set processed. \<forall>d.
      CopyFile p d \<in> set (trace (snd (i18nInlineEmittedFiles ex efs bop ops sepn ep lg pol w)))
      \<longrightarrow> CopyFile p d \<in> set (trace w)"
    using consumed_never_copied [OF ok] by blast
  have two: "\<forall>a\<in>set efs. \<not> skipped sepn a \<longrightarrow> path_join ep (file' a) \<in> set processed"
    using cp(2) by blast
  have three: "CopyFile (path_join ep (file' a)) (path_join base (file' a)) \<in> set (trace w')"
    if a: "a \<in> set efs" and ex: "map_of (files w) (path_join ep (file' a)) = Some content"
      and np: "path_join ep (file' a) \<notin> set processed" and base: "base \<in> set ops"
    for a content base
  proof -
    let ?p = "path_join ep (file' a)"
    have "map_of (files w1) ?p = Some content" using cp(1) [OF np] ex by simp
    then have mem: "(?p, content) \<in> set (files w1)" by (rule map_of_SomeD)
    have "file' a \<notin> set (map (path_relative ep) processed)"
    proof
      assume "file' a \<in> set (map (path_relative ep) processed)"
      then obtain q where q: "q \<in> set processed" "path_relative ep q = file' a" by auto
      from cp(3) [OF q(1)] obtain f where "q = path_join ep f" by blast
      with q(2) have "q = ?p" by simp
      with q(1) np show False by simp
    qed
    then have "path_relative ep ?p \<notin> set (map (path_relative ep) processed)" by simp
    from copy_plan_covers [OF mem under_join this base]
    have pl: "(?p, path_join base (file' a)) \<in>
        set (copy_plan ep (map (path_relative ep) processed) ops w1)"
      by simp
    from C R show ?thesis
    proof (cases rule: run_cases)
      case (consume_fail err)
      with C' C show ?thesis by simp
    next
      case (stream_fail opts' processed' err)
      with C' C stream show ?thesis by simp
    next
      case (copy_fail opts' processed' err k)
      with C' C copy show ?thesis by simp
    next
      case (completed opts' processed')
      with C' C have "processed' = processed" by simp
      with completed(5) pl show ?thesis
        by (auto simp: copy_event_def image_iff intro!: bexI [of _ "(?p, path_join base (file' a))"])
    qed
  qed
  from one two three R show ?thesis by simp
qed

text \<open>A run with an excluded runtime script and two output roots: the main bundle and its map are
  consumed and not copied, the runtime script and the style sheet are copied.\<close>

theorem consumed_and_copied_cover_witness:
  "fst (emittedFilesToInlineOptions [main_js, runtime_js, styles_css] [''runtime''] ''dist'' ''out''
          False (Some MtWarning) (started disk)) =
     Inr ([main_action], [''dist/main.js'', ''dist/main.js.map'']) \<and>
   snd (warnings_only [main_action]) = None \<and>
   fst (copyAssets ''dist'' (map (path_relative ''dist'') [''dist/main.js'', ''dist/main.js.map''])
          [''out/fr'', ''out/de'']
          (snd (emittedFilesToInlineOptions [main_js, runtime_js, styles_css] [''runtime''] ''dist''
                  ''out'' False (Some MtWarning) (started disk)))) = None \<and>
   CopyFile ''dist/main.js'' ''out/fr/main.js'' \<notin>
     set (trace (snd (i18nInlineEmittedFiles warnings_only [main_js, runtime_js, styles_css] ''out''
                        [''out/fr'', ''out/de''] [''runtime''] ''dist'' False (Some MtWarning) disk))) \<and>
   CopyFile ''dist/runtime.js'' ''out/de/runtime.js'' \<in>
     set (trace (snd (i18nInlineEmittedFiles warnings_only [main_js, runtime_js, styles_css] ''out''
                        [''out/fr'', ''out/de''] [''runtime''] ''dist'' False (Some MtWarning) disk))) \<and>
   CopyFile ''dist/styles.css'' ''out/fr/styles.css'' \<in>
     set (trace (snd (i18nInlineEmittedFiles warnings_only [main_js, runtime_js, styles_css] ''out''
                        [''out/fr'', ''out/de''] [''runtime''] ''dist'' False (Some MtWarning) disk)))"
proof -
  have h1: "fst (emittedFilesToInlineOptions [main_js, runtime_js, styles_css] [''runtime''] ''dist''
      ''out'' False (Some MtWarning) (started disk)) =
     Inr ([main_action], [''dist/main.js'', ''dist/main.js.map''])"
    by (simp add: run_defs input_defs)
  have h2: "snd (warnings_only [main_action]) = None"
    by (simp add: warnings_only_def)
  have h3: "fst (copyAssets ''dist'' (map (path_relative ''dist'') [''dist/main.js'', ''dist/main.js.map''])
          [''out/fr'', ''out/de'']
          (snd (emittedFilesToInlineOptions [main_js, runtime_js, styles_css] [''runtime''] ''dist''
                  ''out'' False (Some MtWarning) (started disk)))) = None"
    by (simp add: run_defs input_defs)
  note t = consumed_and_copied_cover [where ex = warnings_only and ops = "[''out/fr'', ''out/de'']"
      and w = disk, OF h1 h2 h3]
  have files: "map_of (files disk) ''dist/runtime.js'' = Some ''R''"
    "map_of (files disk) ''dist/styles.css'' = Some ''S''" "trace disk = []"
    by (simp_all add: disk_def)
  from t have a: "CopyFile ''dist/main.js'' ''out/fr/main.js'' \<notin>
     set (trace (snd (i18nInlineEmittedFiles warnings_only [main_js, runtime_js, styles_css] ''out''
                        [''out/fr'', ''out/de''] [''runtime''] ''dist'' False (Some MtWarning) disk)))"
    using files(3) by auto
  from t have b: "CopyFile (path_join ''dist'' (file' runtime_js)) (path_join ''out/de'' (file' runtime_js)) \<in>
     set (trace (snd (i18nInlineEmittedFiles warnings_only [main_js, runtime_js, styles_css] ''out''
                        [''out/fr'', ''out/de''] [''runtime''] ''dist'' False (Some MtWarning) disk)))"
    using files(1) by (simp add: path_join_def runtime_js_def)
  from t have c: "CopyFile (path_join ''dist'' (file' styles_css)) (path_join ''out/fr'' (file' styles_css)) \<in>
     set (trace (snd (i18nInlineEmittedFiles warnings_only [main_js, runtime_js, styles_css] ''out''
                        [''out/fr'', ''out/de''] [''runtime''] ''dist'' False (Some MtWarning) disk)))"
    using files(2) by (simp add: path_join_def styles_css_def)
  from b c have "CopyFile ''dist/runtime.js'' ''out/de/runtime.js'' \<in>
     set (trace (snd (i18nInlineEmittedFiles warnings_only [main_js, runtime_js, styles_css] ''out''
                        [''out/fr'', ''out/de''] [''runtime''] ''dist'' False (Some MtWarning) disk)))"
    "CopyFile ''dist/styles.css'' ''out/fr/styles.css'' \<in>
     set (trace (snd (i18nInlineEmittedFiles warnings_only [main_js, runtime_js, styles_css] ''out''
                        [''out/fr'', ''out/de''] [''runtime''] ''dist'' False (Some MtWarning) disk)))"
    by (simp_all add: path_join_def runtime_js_def styles_css_def)
  with h1 h2 h3 a show ?thesis by blast
qed

text \<open>Claim C2 as stated, for every set of artifacts, fails where a fatal error ends the run. The
  vendor bundle is missing on disk, so its read throws after the main bundle was consumed:
  the style sheet is an artifact on disk that is neither consumed nor copied.\<close>

theorem fatal_error_leaves_artifact_out:
  "skipped [] styles_css \<and>
   map_of (files disk) ''dist/styles.css'' = Some ''S'' \<and>
   \<not> fst (i18nInlineEmittedFiles warnings_only [main_js, vendor_js, styles_css] ''out''
            [''out/fr''] [] ''dist'' False (Some MtWarning) disk) \<and>
   map_of (files (snd (i18nInlineEmittedFiles warnings_only [main_js, vendor_js, styles_css] ''out''
            [''out/fr''] [] ''dist'' False (Some MtWarning) disk))) ''dist/main.js'' = None \<and>
   map_of (files (snd (i18nInlineEmittedFiles warnings_only [main_js, vendor_js, styles_css] ''out''
            [''out/fr''] [] ''dist'' False (Some MtWarning) disk))) ''out/fr/styles.css'' = None \<and>
   CopyFile ''dist/styles.css'' ''out/fr/styles.css'' \<notin>
     set (trace (snd (i18nInlineEmittedFiles warnings_only [main_js, vendor_js, styles_css] ''out''
            [''out/fr''] [] ''dist'' False (Some MtWarning) disk)))"
  by (simp add: run_defs input_defs)

subsection \<open>C3: which artifacts are inlined\<close>

text \<open>
  Claim C3, as amended. An artifact passes the test of the loop if and only if it is not
  tagged as an asset, its extension is \<open>.js\<close>, and its name is absent, empty, or not among
  the excluded entry-point names. A skipped artifact changes nothing: the loop goes on with
  the same options, the same consumed paths and the same world. When consumption returns,
  its options are, in order, one per artifact that passed the test.
\<close>

theorem classification_rule:
  "(\<not> skipped sepn a \<longleftrightarrow>
      \<not> asset a \<and> extension a = ''.js'' \<and>
      (case name a of None \<Rightarrow> True | Some n \<Rightarrow> n = [] \<or> n \<notin> set sepn)) \<and>
   (skipped sepn a \<longrightarrow>
      inlineOptionsLoop sepn ep bop lg pol (a # rest) opts orig w =
      inlineOptionsLoop sepn ep bop lg pol rest opts orig w) \<and>
   (fst (emittedFilesToInlineOptions efs sepn ep bop lg pol w) = Inr (opts', orig') \<longrightarrow>
      map filename opts' = map file' (filter (\<lambda>a. \<not> skipped sepn a) efs))"
proof -
  have one: "\<not> skipped sepn a \<longleftrightarrow>
      \<not> asset a \<and> extension a = ''.js'' \<and>
      (case name a of None \<Rightarrow> True | Some n \<Rightarrow> n = [] \<or> n \<notin> set sepn)"
    by (auto simp: skipped_def split: option.splits)
  have three: "map filename opts' = map file' (filter (\<lambda>a. \<not> skipped sepn a) efs)"
    if ok: "fst (emittedFilesToInlineOptions efs sepn ep bop lg pol w) = Inr (opts', orig')"
  proof -
    obtain w1 where "emittedFilesToInlineOptions efs sepn ep bop lg pol w = (Inr (opts', orig'), w1)"
      using ok by (cases "emittedFilesToInlineOptions efs sepn ep bop lg pol w") simp
    then show ?thesis by (rule consume_options(1))
  qed
  from one three show ?thesis by simp
qed

text \<open>The runtime script is excluded by name and skipped; the lazy chunk has no name and is not
  skipped; the options of a run over three artifacts are those of the main bundle.\<close>

theorem classification_rule_witness:
  "skipped [''runtime''] runtime_js \<and>
   \<not> skipped [''runtime''] lazy_js \<and>
   fst (inlineOptionsLoop [''runtime''] ''dist'' ''out'' False (Some MtWarning)
          (runtime_js # [main_js]) [] [] disk) =
     fst (inlineOptionsLoop [''runtime''] ''dist'' ''out'' False (Some MtWarning) [main_js] [] [] disk) \<and>
   fst (emittedFilesToInlineOptions [main_js, runtime_js, styles_css] [''runtime''] ''dist'' ''out''
          False (Some MtWarning) disk) =
     Inr ([main_action], [''dist/main.js'', ''dist/main.js.map'']) \<and>
   map filename [main_action] = [''main.js'']"
proof -
  have h: "fst (emittedFilesToInlineOptions [main_js, runtime_js, styles_css] [''runtime''] ''dist''
      ''out'' False (Some MtWarning) disk) =
     Inr ([main_action], [''dist/main.js'', ''dist/main.js.map''])"
    by (simp add: run_defs input_defs)
  have s: "skipped [''runtime''] runtime_js"
    using classification_rule [where sepn = "[''runtime'']" and a = runtime_js]
    by (simp add: runtime_js_def)
  have n: "\<not> skipped [''runtime''] lazy_js"
    using classification_rule [where sepn = "[''runtime'']" and a = lazy_js]
    by (simp add: lazy_js_def)
  have l: "inlineOptionsLoop [''runtime''] ''dist'' ''out'' False (Some MtWarning)
          (runtime_js # [main_js]) [] [] disk =
     inlineOptionsLoop [''runtime''] ''dist'' ''out'' False (Some MtWarning) [main_js] [] [] disk"
    using classification_rule [where sepn = "[''runtime'']" and a = runtime_js and ep = "''dist''"
        and bop = "''out''" and lg = False and pol = "Some MtWarning" and rest = "[main_js]"
        and opts = "[]" and orig = "[]" and w = disk] s
    by blast
  have m: "map filename [main_action] =
      map file' (filter (\<lambda>a. \<not> skipped [''runtime''] a) [main_js, runtime_js, styles_css])"
    using classification_rule [where sepn = "[''runtime'']" and efs = "[main_js, runtime_js, styles_css]"
        and ep = "''dist''" and bop = "''out''" and lg = False and pol = "Some MtWarning"
        and w = disk and opts' = "[main_action]"
        and orig' = "[''dist/main.js'', ''dist/main.js.map'']"] h
    by blast
  have "map filename [main_action] = [''main.js'']" by (simp add: main_action_def)
  with h s n l show ?thesis by simp
qed

text \<open>Claim C3 as stated fails on an empty name: the name is present and is a member of the
  excluded names, so the rule of the specification excludes the artifact, yet the source
  builds a request for it, the empty string being falsy in \<open>emittedFile.name && ...\<close>.\<close>

theorem empty_name_is_inlined:
  "name anon_js = Some '''' \<and> '''' \<in> set [''''] \<and>
   \<not> eligible_by_spec [''''] anon_js \<and>
   fst (emittedFilesToInlineOptions [anon_js] [''''] ''dist'' ''out'' False None anon_disk) =
     Inr ([anon_action], [''dist/anon.js''])"
  by (simp add: run_defs input_defs more_input_defs eligible_by_spec_def)

subsection \<open>C4: the map file\<close>

text \<open>
  Claim C4, as amended. For an artifact whose primary file was read: when there is no map
  file, the request is built without a map and nothing is raised; when the map file is
  read, its content is attached and its path consumed, a failure to delete it is logged
  and not raised, and without such a failure the map file is gone afterwards; and a
  failure to read the map file other than \<open>ENOENT\<close> is raised again and ends the loop.
\<close>

theorem map_file_handling:
  assumes rd: "readFileSync (path_join ep (file' a)) w = Inr content"
  shows "(read_fault w (path_join ep (file' a) @ ''.map'') = None \<and>
          map_of (files w) (path_join ep (file' a) @ ''.map'') = None \<longrightarrow>
            (\<exists>action. fst (inlineOptionsOf ep bop lg pol a w) = Inr (action, [path_join ep (file' a)]) \<and>
               map_text action = None \<and> code action = content)) \<and>
         (\<forall>m. readFileSync (path_join ep (file' a) @ ''.map'') w = Inr m \<longrightarrow>
            (\<exists>action. fst (inlineOptionsOf ep bop lg pol a w) =
                 Inr (action, [path_join ep (file' a), path_join ep (file' a) @ ''.map'']) \<and>
               map_text action = Some m \<and> code action = content) \<and>
            (\<forall>e. unlinkSync (path_join ep (file' a) @ ''.map'') w = Inl e \<longrightarrow>
               LoggerDebug (unable_to_delete (path_join ep (file' a) @ ''.map'') e)
                 \<in> set (trace (snd (inlineOptionsOf ep bop lg pol a w)))) \<and>
            (unlink_fault w (path_join ep (file' a) @ ''.map'') = None \<longrightarrow>
               map_of (files (snd (inlineOptionsOf ep bop lg pol a w)))
                 (path_join ep (file' a) @ ''.map'') = None)) \<and>
         (\<forall>err. readFileSync (path_join ep (file' a) @ ''.map'') w = Inl err \<and>
            err_code err \<noteq> Some ''ENOENT'' \<longrightarrow>
            fst (inlineOptionsOf ep bop lg pol a w) = Inl err \<and>
            (\<not> skipped sepn a \<longrightarrow>
               fst (inlineOptionsLoop sepn ep bop lg pol (a # rest) opts orig w) = Inl err))"
proof -
  let ?p = "path_join ep (file' a)"
  let ?mp = "?p @ ''.map''"
  let ?body = "inlineOptionsOf ep bop lg pol a w"
  let ?w1 = "try_unlink ?p w"
  have absent: "\<exists>action. fst ?body = Inr (action, [?p]) \<and> map_text action = None \<and> code action = content"
    if "read_fault w ?mp = None" "map_of (files w) ?mp = None"
  proof -
    from that have "readFileSync ?mp w = Inl (enoent ''open'' ?mp)"
      by (simp add: readFileSync_def)
    from inlineOptionsOf_no_map [OF rd this] show ?thesis
      by (simp add: enoent_def actionOf_def)
  qed
  have present: "(\<exists>action. fst ?body = Inr (action, [?p, ?mp]) \<and>
               map_text action = Some m \<and> code action = content) \<and>
            (\<forall>e. unlinkSync ?mp w = Inl e \<longrightarrow>
               LoggerDebug (unable_to_delete ?mp e) \<in> set (trace (snd ?body))) \<and>
            (unlink_fault w ?mp = None \<longrightarrow> map_of (files (snd ?body)) ?mp = None)"
    if m: "readFileSync ?mp w = Inr m" for m
  proof -
    note b = inlineOptionsOf_with_map [OF rd m, of bop lg pol]
    have one: "\<exists>action. fst ?body = Inr (action, [?p, ?mp]) \<and>
               map_text action = Some m \<and> code action = content"
      using b by (simp add: actionOf_def)
    have two: "LoggerDebug (unable_to_delete ?mp e) \<in> set (trace (snd ?body))"
      if "unlinkSync ?mp w = Inl e" for e
    proof -
      have "unlinkSync ?mp ?w1 = Inl e"
        using that by (intro unlinkSync_fails_same [of ?w1 w]) (simp_all add: try_unlink_other)
      from try_unlink_logs [OF this] show ?thesis
        using b by (simp add: logger_debug_def)
    qed
    have three: "map_of (files (snd ?body)) ?mp = None" if "unlink_fault w ?mp = None"
      using b that try_unlink_removed [of ?w1 ?mp] by (simp add: logger_debug_def)
    from one two three show ?thesis by blast
  qed
  have raised: "fst ?body = Inl err \<and>
      (\<not> skipped sepn a \<longrightarrow> fst (inlineOptionsLoop sepn ep bop lg pol (a # rest) opts orig w) = Inl err)"
    if "readFileSync ?mp w = Inl err" "err_code err \<noteq> Some ''ENOENT''" for err
    using inlineOptionsOf_map_raises [OF rd that, of bop lg pol] by simp
  from absent present raised show ?thesis by blast
qed

text \<open>The runtime script has no map; the map of the main bundle cannot be deleted on one disk, is
  deleted on another, and cannot be read on a third.\<close>

theorem map_file_handling_witness:
  "readFileSync (path_join ''dist'' (file' runtime_js)) disk = Inr ''R'' \<and>
   fst (inlineOptionsOf ''dist'' ''out'' False None runtime_js disk) =
     Inr (\<lparr>filename = ''runtime.js'', code = ''R'', map_text = None, es5 = False,
           outputPath = ''out'', missingTranslation = None, setLocale = False\<rparr>,
          [''dist/runtime.js'']) \<and>
   readFileSync (path_join ''dist'' (file' main_js)) map_locked_disk = Inr ''M'' \<and>
   readFileSync (path_join ''dist'' (file' main_js) @ ''.map'') map_locked_disk = Inr ''MM'' \<and>
   unlinkSync (path_join ''dist'' (file' main_js) @ ''.map'') map_locked_disk = Inl eperm \<and>
   LoggerDebug (unable_to_delete ''dist/main.js.map'' eperm)
     \<in> set (trace (snd (inlineOptionsOf ''dist'' ''out'' False None main_js map_locked_disk))) \<and>
   map_of (files (snd (inlineOptionsOf ''dist'' ''out'' False None main_js disk))) ''dist/main.js.map''
     = None \<and>
   readFileSync (path_join ''dist'' (file' main_js) @ ''.map'') map_unreadable_disk = Inl eacces \<and>
   fst (inlineOptionsOf ''dist'' ''out'' False None main_js map_unreadable_disk) = Inl eacces"
proof -
  have r1: "readFileSync (path_join ''dist'' (file' runtime_js)) disk = Inr ''R''"
    by (simp add: run_defs input_defs)
  have a1: "read_fault disk (path_join ''dist'' (file' runtime_js) @ ''.map'') = None \<and>
      map_of (files disk) (path_join ''dist'' (file' runtime_js) @ ''.map'') = None"
    by (simp add: run_defs input_defs)
  from map_file_handling [OF r1, of "''out''" False None] a1
  obtain action where "fst (inlineOptionsOf ''dist'' ''out'' False None runtime_js disk) =
      Inr (action, [path_join ''dist'' (file' runtime_js)])"
    by blast
  then have c1: "fst (inlineOptionsOf ''dist'' ''out'' False None runtime_js disk) =
     Inr (\<lparr>filename = ''runtime.js'', code = ''R'', map_text = None, es5 = False,
           outputPath = ''out'', missingTranslation = None, setLocale = False\<rparr>,
          [''dist/runtime.js''])"
    by (simp add: run_defs input_defs)
  have r2: "readFileSync (path_join ''dist'' (file' main_js)) map_locked_disk = Inr ''M''"
    and m2: "readFileSync (path_join ''dist'' (file' main_js) @ ''.map'') map_locked_disk = Inr ''MM''"
    and u2: "unlinkSync (path_join ''dist'' (file' main_js) @ ''.map'') map_locked_disk = Inl eperm"
    by (simp_all add: run_defs input_defs more_input_defs)
  from map_file_handling [OF r2, of "''out''" False None] m2 u2
  have "LoggerDebug (unable_to_delete (path_join ''dist'' (file' main_js) @ ''.map'') eperm)
     \<in> set (trace (snd (inlineOptionsOf ''dist'' ''out'' False None main_js map_locked_disk)))"
    by blast
  then have c2: "LoggerDebug (unable_to_delete ''dist/main.js.map'' eperm)
     \<in> set (trace (snd (inlineOptionsOf ''dist'' ''out'' False None main_js map_locked_disk)))"
    by (simp add: path_join_def main_js_def)
  have r3: "readFileSync (path_join ''dist'' (file' main_js)) disk = Inr ''M''"
    and m3: "readFileSync (path_join ''dist'' (file' main_js) @ ''.map'') disk = Inr ''MM''"
    and u3: "unlink_fault disk (path_join ''dist'' (file' main_js) @ ''.map'') = None"
    by (simp_all add: run_defs input_defs)
  from map_file_handling [OF r3, of "''out''" False None] m3 u3
  have "map_of (files (snd (inlineOptionsOf ''dist'' ''out'' False None main_js disk)))
      (path_join ''dist'' (file' main_js) @ ''.map'') = None"
    by blast
  then have c3: "map_of (files (snd (inlineOptionsOf ''dist'' ''out'' False None main_js disk)))
      ''dist/main.js.map'' = None"
    by (simp add: path_join_def main_js_def)
  have r4: "readFileSync (path_join ''dist'' (file' main_js)) map_unreadable_disk = Inr ''M''"
    and m4: "readFileSync (path_join ''dist'' (file' main_js) @ ''.map'') map_unreadable_disk = Inl eacces"
    and e4: "err_code eacces \<noteq> Some ''ENOENT''"
    by (simp_all add: run_defs input_defs more_input_defs)
  from map_file_handling [OF r4, of "''out''" False None] m4 e4
  have c4: "fst (inlineOptionsOf ''dist'' ''out'' False None main_js map_unreadable_disk) = Inl eacces"
    by blast
  from r1 c1 r2 m2 u2 c2 c3 m4 c4 show ?thesis by simp
qed

text \<open>Claim C4 as stated fails on a map file that cannot be read for another reason than its
  absence: the error is raised, not logged, and ends the whole run before the executor is
  called.\<close>

theorem map_read_error_is_raised:
  "readFileSync ''dist/main.js.map'' map_unreadable_disk = Inl eacces \<and>
   fst (emittedFilesToInlineOptions [main_js, styles_css] [] ''dist'' ''out'' False None
          map_unreadable_disk) = Inl eacces \<and>
   \<not> fst (i18nInlineEmittedFiles warnings_only [main_js, styles_css] ''out'' [''out/fr''] []
            ''dist'' False None map_unreadable_disk) \<and>
   trace (snd (i18nInlineEmittedFiles warnings_only [main_js, styles_css] ''out'' [''out/fr''] []
            ''dist'' False None map_unreadable_disk)) =
     [SpinnerStart (Some ''Generating localized bundles...''),
      SpinnerFail ''Localized bundle generation failed: EACCES: permission denied'',
      ExecutorStop]"
  by (simp add: run_defs input_defs more_input_defs)

subsection \<open>C5: when the remaining files are copied\<close>

text \<open>
  Claim C5, as amended. The run calls \<open>copyAssets\<close> once, with the consumed paths relative
  to the emitted path as its ignore list, exactly when consumption returned and the result
  stream ended without throwing, whatever the diagnostics were; it does not call it
  otherwise. A fatal error before that point, in consumption or in the middle of the
  stream, makes the run return false.
\<close>

theorem reconciliation_when_stream_completes:
  "filter is_copy_call (trace (snd (i18nInlineEmittedFiles ex efs bop ops sepn ep lg pol w))) =
     filter is_copy_call (trace w) @
     (case fst (emittedFilesToInlineOptions efs sepn ep bop lg pol (started w)) of
        Inl err \<Rightarrow> []
      | Inr (opts, processed) \<Rightarrow>
          if snd (ex opts) = None
          then [CopyAssets ep (map (path_relative ep) processed) ops]
          else []) \<and>
   (case fst (emittedFilesToInlineOptions efs sepn ep bop lg pol (started w)) of
      Inl err \<Rightarrow> \<not> fst (i18nInlineEmittedFiles ex efs bop ops sepn ep lg pol w)
    | Inr (opts, processed) \<Rightarrow>
        snd (ex opts) \<noteq> None \<longrightarrow> \<not> fst (i18nInlineEmittedFiles ex efs bop ops sepn ep lg pol w))"
proof -
  obtain c w1 where C: "emittedFilesToInlineOptions efs sepn ep bop lg pol (started w) = (c, w1)"
    by (cases "emittedFilesToInlineOptions efs sepn ep bop lg pol (started w)")
  obtain b w' where R: "i18nInlineEmittedFiles ex efs bop ops sepn ep lg pol w = (b, w')"
    by (cases "i18nInlineEmittedFiles ex efs bop ops sepn ep lg pol w")
  have t1: "filter is_copy_call (trace w1) = filter is_copy_call (trace w)"
    using C by (rule consume_filter) simp
  have re: "filter is_copy_call (concat (map result_events rs)) = []" for rs
    by (rule filter_result_events) simp
  have cp: "filter is_copy_call (map copy_event plan) = []" for plan
    by (rule filter_copy_events) simp
  from C R show ?thesis
    by (cases rule: run_cases) (simp_all add: C R t1 re cp tail_defs)
qed

text \<open>With an error among the diagnostics the copy is still called, once; with an executor that
  throws it is not.\<close>

theorem reconciliation_when_stream_completes_witness:
  "filter is_copy_call
     (trace (snd (i18nInlineEmittedFiles error_then_warning [main_js, styles_css] ''out''
                    [''out/fr''] [] ''dist'' False (Some MtWarning) disk))) =
     [CopyAssets ''dist'' [''main.js'', ''main.js.map''] [''out/fr'']] \<and>
   \<not> fst (i18nInlineEmittedFiles error_then_warning [main_js, styles_css] ''out''
            [''out/fr''] [] ''dist'' False (Some MtWarning) disk) \<and>
   filter is_copy_call
     (trace (snd (i18nInlineEmittedFiles crashing [main_js, styles_css] ''out''
                    [''out/fr''] [] ''dist'' False (Some MtWarning) disk))) = []"
proof -
  have h: "fst (emittedFilesToInlineOptions [main_js, styles_css] [] ''dist'' ''out'' False
      (Some MtWarning) (started disk)) = Inr ([main_action], [''dist/main.js'', ''dist/main.js.map''])"
    by (simp add: run_defs input_defs)
  have e: "snd (error_then_warning [main_action]) = None" "snd (crashing [main_action]) = Some crash"
    "trace disk = []"
    by (simp_all add: input_defs)
  have a: "filter is_copy_call
     (trace (snd (i18nInlineEmittedFiles error_then_warning [main_js, styles_css] ''out''
                    [''out/fr''] [] ''dist'' False (Some MtWarning) disk))) =
     [CopyAssets ''dist'' [''main.js'', ''main.js.map''] [''out/fr'']]"
    using reconciliation_when_stream_completes [of error_then_warning "[main_js, styles_css]"
        "''out''" "[''out/fr'']" "[]" "''dist''" False "Some MtWarning" disk] h e
    by (simp add: path_relative_def)
  have b: "filter is_copy_call
     (trace (snd (i18nInlineEmittedFiles crashing [main_js, styles_css] ''out''
                    [''out/fr''] [] ''dist'' False (Some MtWarning) disk))) = []"
    using reconciliation_when_stream_completes [of crashing "[main_js, styles_css]"
        "''out''" "[''out/fr'']" "[]" "''dist''" False "Some MtWarning" disk] h e
    by simp
  have c: "\<not> fst (i18nInlineEmittedFiles error_then_warning [main_js, styles_css] ''out''
            [''out/fr''] [] ''dist'' False (Some MtWarning) disk)"
    by (simp add: run_defs input_defs)
  from a b c show ?thesis by simp
qed

text \<open>Claim C5 as stated fails on an executor that throws in the middle of the stream, after
  consumption has completed: the run returns false without calling \<open>copyAssets\<close>, and the
  style sheet is not in the output root.\<close>

theorem midstream_failure_skips_copy:
  "fst (emittedFilesToInlineOptions [main_js, styles_css] [] ''dist'' ''out'' False
          (Some MtWarning) (started disk)) =
     Inr ([main_action], [''dist/main.js'', ''dist/main.js.map'']) \<and>
   crashing [main_action] = ([\<lparr>result_file = ''main.js'', diagnostics = []\<rparr>], Some crash) \<and>
   \<not> fst (i18nInlineEmittedFiles crashing [main_js, styles_css] ''out'' [''out/fr''] []
            ''dist'' False (Some MtWarning) disk) \<and>
   trace (snd (i18nInlineEmittedFiles crashing [main_js, styles_css] ''out'' [''out/fr''] []
            ''dist'' False (Some MtWarning) disk)) =
     [SpinnerStart (Some ''Generating localized bundles...''),
      LoggerDebug ''i18n file queued for processing: main.js'',
      ExecutorInlineAll [main_action],
      LoggerDebug ''i18n file processed: main.js'',
      SpinnerFail ''Localized bundle generation failed: worker exited'',
      ExecutorStop] \<and>
   map_of (files (snd (i18nInlineEmittedFiles crashing [main_js, styles_css] ''out'' [''out/fr''] []
            ''dist'' False (Some MtWarning) disk))) ''dist/styles.css'' = Some ''S'' \<and>
   map_of (files (snd (i18nInlineEmittedFiles crashing [main_js, styles_css] ''out'' [''out/fr''] []
            ''dist'' False (Some MtWarning) disk))) ''out/fr/styles.css'' = None"
  by (simp add: run_defs input_defs)

subsection \<open>C6: the executor is stopped once\<close>

text \<open>
  Claim C6. Every run calls \<open>executor.stop()\<close> exactly once, on every path. When the read
  of the primary file of an artifact that is not skipped throws, after the artifacts before
  it were consumed, the run returns false and never calls \<open>executor.inlineAll\<close>.
\<close>

theorem executor_stopped_once:
  "length (filter is_stop (trace (snd (i18nInlineEmittedFiles ex efs bop ops sepn ep lg pol w)))) =
     Suc (length (filter is_stop (trace w))) \<and>
   (\<forall>pre a rest opts orig e.
      efs = pre @ a # rest \<and>
      fst (inlineOptionsLoop sepn ep bop lg pol pre [] [] (started w)) = Inr (opts, orig) \<and>
      \<not> skipped sepn a \<and>
      readFileSync (path_join ep (file' a))
        (snd (inlineOptionsLoop sepn ep bop lg pol pre [] [] (started w))) = Inl e \<longrightarrow>
      \<not> fst (i18nInlineEmittedFiles ex efs bop ops sepn ep lg pol w) \<and>
      filter is_inline_call (trace (snd (i18nInlineEmittedFiles ex efs bop ops sepn ep lg pol w))) =
        filter is_inline_call (trace w))"
proof -
  obtain c w1 where C: "emittedFilesToInlineOptions efs sepn ep bop lg pol (started w) = (c, w1)"
    by (cases "emittedFilesToInlineOptions efs sepn ep bop lg pol (started w)")
  obtain b w' where R: "i18nInlineEmittedFiles ex efs bop ops sepn ep lg pol w = (b, w')"
    by (cases "i18nInlineEmittedFiles ex efs bop ops sepn ep lg pol w")
  have t1: "filter is_stop (trace w1) = filter is_stop (trace w)"
    using C by (rule consume_filter) simp
  have re: "filter is_stop (concat (map result_events rs)) = []" for rs
    by (rule filter_result_events) simp
  have cp: "filter is_stop (map copy_event plan) = []" for plan
    by (rule filter_copy_events) simp
  from C R have "length (filter is_stop (trace w')) = Suc (length (filter is_stop (trace w)))"
    by (cases rule: run_cases) (simp_all add: t1 re cp tail_defs)
  then have once: "length (filter is_stop (trace (snd (i18nInlineEmittedFiles ex efs bop ops sepn ep lg pol w)))) =
     Suc (length (filter is_stop (trace w)))"
    using R by simp
  have abort: "\<not> fst (i18nInlineEmittedFiles ex efs bop ops sepn ep lg pol w) \<and>
      filter is_inline_call (trace (snd (i18nInlineEmittedFiles ex efs bop ops sepn ep lg pol w))) =
        filter is_inline_call (trace w)"
    if efs: "efs = pre @ a # rest"
      and pre: "fst (inlineOptionsLoop sepn ep bop lg pol pre [] [] (started w)) = Inr (opts, orig)"
      and a: "\<not> skipped sepn a"
      and rd: "readFileSync (path_join ep (file' a))
        (snd (inlineOptionsLoop sepn ep bop lg pol pre [] [] (started w))) = Inl e"
    for pre a rest opts orig e
  proof -
    obtain wp where wp: "inlineOptionsLoop sepn ep bop lg pol pre [] [] (started w) = (Inr (opts, orig), wp)"
      using pre by (cases "inlineOptionsLoop sepn ep bop lg pol pre [] [] (started w)") simp
    from rd wp have "inlineOptionsOf ep bop lg pol a wp = (Inl e, wp)"
      by (simp add: inlineOptionsOf_read_fails)
    with a have "inlineOptionsLoop sepn ep bop lg pol (a # rest) opts orig wp = (Inl e, wp)"
      by simp
    with wp efs have "emittedFilesToInlineOptions efs sepn ep bop lg pol (started w) = (Inl e, wp)"
      by (simp add: emittedFilesToInlineOptions_def loop_append)
    with C have c: "c = Inl e" by simp
    have t1': "filter is_inline_call (trace w1) = filter is_inline_call (trace w)"
      using C by (rule consume_filter) simp
    from C R have "\<not> b \<and> filter is_inline_call (trace w') = filter is_inline_call (trace w)"
      by (cases rule: run_cases) (simp_all add: c t1' tail_defs)
    with R show ?thesis by simp
  qed
  from once abort show ?thesis by blast
qed

text \<open>The vendor bundle is missing on disk: its read throws after the main bundle was consumed.\<close>

theorem executor_stopped_once_witness:
  "length (filter is_stop
     (trace (snd (i18nInlineEmittedFiles warnings_only [main_js, vendor_js, styles_css] ''out''
                    [''out/fr''] [] ''dist'' False (Some MtWarning) disk)))) = 1 \<and>
   fst (inlineOptionsLoop [] ''dist'' ''out'' False (Some MtWarning) [main_js] [] [] (started disk)) =
     Inr ([main_action], [''dist/main.js'', ''dist/main.js.map'']) \<and>
   \<not> skipped [] vendor_js \<and>
   readFileSync (path_join ''dist'' (file' vendor_js))
     (snd (inlineOptionsLoop [] ''dist'' ''out'' False (Some MtWarning) [main_js] [] [] (started disk))) =
     Inl (enoent ''open'' ''dist/vendor.js'') \<and>
   \<not> fst (i18nInlineEmittedFiles warnings_only [main_js, vendor_js, styles_css] ''out''
            [''out/fr''] [] ''dist'' False (Some MtWarning) disk) \<and>
   filter is_inline_call
     (trace (snd (i18nInlineEmittedFiles warnings_only [main_js, vendor_js, styles_css] ''out''
                    [''out/fr''] [] ''dist'' False (Some MtWarning) disk))) = []"
proof -
  note t = executor_stopped_once [of warnings_only "[main_js, vendor_js, styles_css]" "''out''"
      "[''out/fr'']" "[]" "''dist''" False "Some MtWarning" disk]
  have e: "trace disk = []" by (simp add: disk_def)
  have h1: "[main_js, vendor_js, styles_css] = [main_js] @ vendor_js # [styles_css]" by simp
  have h2: "fst (inlineOptionsLoop [] ''dist'' ''out'' False (Some MtWarning) [main_js] [] []
      (started disk)) = Inr ([main_action], [''dist/main.js'', ''dist/main.js.map''])"
    by (simp add: run_defs input_defs)
  have h3: "\<not> skipped [] vendor_js" by (simp add: skipped_def vendor_js_def)
  have h4: "readFileSync (path_join ''dist'' (file' vendor_js))
     (snd (inlineOptionsLoop [] ''dist'' ''out'' False (Some MtWarning) [main_js] [] [] (started disk))) =
     Inl (enoent ''open'' ''dist/vendor.js'')"
    by (simp add: run_defs input_defs)
  from t e have once: "length (filter is_stop
     (trace (snd (i18nInlineEmittedFiles warnings_only [main_js, vendor_js, styles_css] ''out''
                    [''out/fr''] [] ''dist'' False (Some MtWarning) disk)))) = 1"
    by simp
  from t h1 h2 h3 h4 have "\<not> fst (i18nInlineEmittedFiles warnings_only [main_js, vendor_js, styles_css] ''out''
            [''out/fr''] [] ''dist'' False (Some MtWarning) disk) \<and>
   filter is_inline_call
     (trace (snd (i18nInlineEmittedFiles warnings_only [main_js, vendor_js, styles_css] ''out''
                    [''out/fr''] [] ''dist'' False (Some MtWarning) disk))) =
   filter is_inline_call (trace disk)"
    by blast
  with e once h2 h3 h4 show ?thesis by simp
qed

subsection \<open>C7: every diagnostic is reported\<close>

text \<open>
  Claim C7. The loop over the results sets \<open>hasErrors\<close> as soon as a diagnostic of type
  \<open>'error'\<close> is seen and goes on all the same: its trace is, for every result in order, the
  debug line of the result and then, for every diagnostic in order, the spinner stopped,
  the message sent to \<open>logger.error\<close> (type \<open>'error'\<close>) or to \<open>logger.warn\<close> (any other
  type), the spinner started again. So the messages sent to the two channels are those of
  all diagnostics of all results, in order; and the same holds of a whole run whose
  consumption returned.
\<close>

theorem diagnostics_reported:
  "fst (processResults results h w) = (h \<or> error_observed results) \<and>
   trace (snd (processResults results h w)) = trace w @ concat (map result_events results) \<and>
   filter is_report (concat (map result_events results)) =
     map report_of (concat (map diagnostics results)) \<and>
   (fst (emittedFilesToInlineOptions efs sepn ep bop lg pol (started w0)) = Inr (opts, processed) \<longrightarrow>
    filter is_report (trace (snd (i18nInlineEmittedFiles ex efs bop ops sepn ep lg pol w0))) =
      filter is_report (trace w0) @ map report_of (concat (map diagnostics (fst (ex opts)))))"
proof -
  obtain h' w' where P: "processResults results h w = (h', w')"
    by (cases "processResults results h w")
  have a: "fst (processResults results h w) = (h \<or> error_observed results)"
    and b: "trace (snd (processResults results h w)) = trace w @ concat (map result_events results)"
    using processResults_spec [OF P] P by simp_all
  have d: "filter is_report (trace (snd (i18nInlineEmittedFiles ex efs bop ops sepn ep lg pol w0))) =
      filter is_report (trace w0) @ map report_of (concat (map diagnostics (fst (ex opts))))"
    if ok: "fst (emittedFilesToInlineOptions efs sepn ep bop lg pol (started w0)) = Inr (opts, processed)"
  proof -
    obtain c w1 where C: "emittedFilesToInlineOptions efs sepn ep bop lg pol (started w0) = (c, w1)"
      by (cases "emittedFilesToInlineOptions efs sepn ep bop lg pol (started w0)")
    obtain r w2 where R: "i18nInlineEmittedFiles ex efs bop ops sepn ep lg pol w0 = (r, w2)"
      by (cases "i18nInlineEmittedFiles ex efs bop ops sepn ep lg pol w0")
    have c: "c = Inr (opts, processed)" using ok C by simp
    have "filter is_report (trace w1) = filter is_report (trace (started w0))"
      using consume_frame(1) [OF C] by (rule debug_only_filter) (auto elim: is_report.elims)
    then have t1: "filter is_report (trace w1) = filter is_report (trace w0)" by simp
    have cp: "filter is_report (map copy_event plan) = []" for plan
      by (rule filter_copy_events) simp
    from C R have "filter is_report (trace w2) =
        filter is_report (trace w0) @ map report_of (concat (map diagnostics (fst (ex opts))))"
      by (cases rule: run_cases)
        (simp_all add: c t1 cp filter_report_result_events tail_defs)
    with R show ?thesis by simp
  qed
  from a b d filter_report_result_events show ?thesis by blast
qed

text \<open>An error in the first result, then two warnings: all three are reported, in order.\<close>

theorem diagnostics_reported_witness:
  "fst (processResults (fst (error_then_warning [])) False disk) \<and>
   filter is_report (trace (snd (processResults (fst (error_then_warning [])) False disk))) =
     [LoggerError ''e1'', LoggerWarn ''w1'', LoggerWarn ''w2''] \<and>
   fst (emittedFilesToInlineOptions [main_js, styles_css] [] ''dist'' ''out'' False
          (Some MtWarning) (started disk)) =
     Inr ([main_action], [''dist/main.js'', ''dist/main.js.map'']) \<and>
   filter is_report
     (trace (snd (i18nInlineEmittedFiles error_then_warning [main_js, styles_css] ''out''
                    [''out/fr''] [] ''dist'' False (Some MtWarning) disk))) =
     [LoggerError ''e1'', LoggerWarn ''w1'', LoggerWarn ''w2'']"
proof -
  have h: "fst (emittedFilesToInlineOptions [main_js, styles_css] [] ''dist'' ''out'' False
      (Some MtWarning) (started disk)) = Inr ([main_action], [''dist/main.js'', ''dist/main.js.map''])"
    by (simp add: run_defs input_defs)
  have e: "trace disk = []" by (simp add: disk_def)
  note t = diagnostics_reported [where results = "fst (error_then_warning [])" and h = False
      and w = disk and efs = "[main_js, styles_css]" and sepn = "[]" and ep = "''dist''"
      and bop = "''out''" and lg = False and pol = "Some MtWarning" and ?w0.0 = disk
      and opts = "[main_action]" and processed = "[''dist/main.js'', ''dist/main.js.map'']"
      and ex = error_then_warning and ops = "[''out/fr'']"]
  from t have a: "fst (processResults (fst (error_then_warning [])) False disk)"
    by (simp add: error_observed_def is_error_def error_then_warning_def)
  from t e have b: "filter is_report (trace (snd (processResults (fst (error_then_warning [])) False disk))) =
     [LoggerError ''e1'', LoggerWarn ''w1'', LoggerWarn ''w2'']"
    by (simp add: report_of_def is_error_def error_then_warning_def)
  from t h e have c: "filter is_report
     (trace (snd (i18nInlineEmittedFiles error_then_warning [main_js, styles_css] ''out''
                    [''out/fr''] [] ''dist'' False (Some MtWarning) disk))) =
     [LoggerError ''e1'', LoggerWarn ''w1'', LoggerWarn ''w2'']"
    by (simp add: report_of_def is_error_def error_then_warning_def)
  from a b c h show ?thesis by simp
qed

subsection \<open>C8: the \<open>setLocale\<close> flag\<close>

text \<open>
  Claim C8. When consumption returns, its options are, in order, those of the artifacts
  that are not skipped, and the \<open>setLocale\<close> flag of each is true exactly when the name of
  its artifact is \<open>main\<close> or \<open>vendor\<close>; it is false for every other name and when the name
  is absent. The same holds of every single request that the loop body builds, whether or
  not the loop later throws.
\<close>

theorem setLocale_main_or_vendor:
  assumes "fst (emittedFilesToInlineOptions efs sepn ep bop lg pol w) = Inr (opts, processed)"
  shows "map (\<lambda>opt. (filename opt, setLocale opt)) opts =
           map (\<lambda>a. (file' a, name a = Some ''main'' \<or> name a = Some ''vendor''))
             (filter (\<lambda>a. \<not> skipped sepn a) efs) \<and>
         (\<forall>a v action paths.
            fst (inlineOptionsOf ep bop lg pol a v) = Inr (action, paths) \<longrightarrow>
            setLocale action = (name a = Some ''main'' \<or> name a = Some ''vendor''))"
proof -
  obtain w1 where C: "emittedFilesToInlineOptions efs sepn ep bop lg pol w = (Inr (opts, processed), w1)"
    using assms by (cases "emittedFilesToInlineOptions efs sepn ep bop lg pol w") simp
  have "map (\<lambda>opt. (filename opt, setLocale opt)) opts =
        map (\<lambda>a. (file' a, isMainOrVendor a)) (filter (\<lambda>a. \<not> skipped sepn a) efs)"
    using consume_options [OF C] by (rule map_pair_eq)
  then have all: "map (\<lambda>opt. (filename opt, setLocale opt)) opts =
           map (\<lambda>a. (file' a, name a = Some ''main'' \<or> name a = Some ''vendor''))
             (filter (\<lambda>a. \<not> skipped sepn a) efs)"
    by (simp add: isMainOrVendor_def)
  have each: "setLocale action = (name a = Some ''main'' \<or> name a = Some ''vendor'')"
    if ok: "fst (inlineOptionsOf ep bop lg pol a v) = Inr (action, paths)" for a v action paths
  proof -
    obtain v' where "inlineOptionsOf ep bop lg pol a v = (Inr (action, paths), v')"
      using ok by (cases "inlineOptionsOf ep bop lg pol a v") simp
    then show ?thesis by (rule inlineOptionsOf_success(2))
  qed
  from all each show ?thesis by blast
qed

text \<open>A main bundle, a vendor bundle, a lazy chunk without a name and a style sheet.\<close>

theorem setLocale_main_or_vendor_witness:
  "fst (emittedFilesToInlineOptions [main_js, vendor_js, lazy_js, styles_css] [] ''dist'' ''out''
          False None lazy_disk) =
     Inr ([\<lparr>filename = ''main.js'', code = ''M'', map_text = None, es5 = False,
            outputPath = ''out'', missingTranslation = None, setLocale = True\<rparr>,
           \<lparr>filename = ''vendor.js'', code = ''V'', map_text = None, es5 = False,
            outputPath = ''out'', missingTranslation = None, setLocale = True\<rparr>,
           \<lparr>filename = ''lazy.js'', code = ''L'', map_text = None, es5 = False,
            outputPath = ''out'', missingTranslation = None, setLocale = False\<rparr>],
          [''dist/main.js'', ''dist/vendor.js'', ''dist/lazy.js'']) \<and>
   map (\<lambda>a. (file' a, name a = Some ''main'' \<or> name a = Some ''vendor''))
     (filter (\<lambda>a. \<not> skipped [] a) [main_js, vendor_js, lazy_js, styles_css]) =
     [(''main.js'', True), (''vendor.js'', True), (''lazy.js'', False)] \<and>
   fst (inlineOptionsOf ''dist'' ''out'' False None lazy_js lazy_disk) =
     Inr (\<lparr>filename = ''lazy.js'', code = ''L'', map_text = None, es5 = False,
           outputPath = ''out'', missingTranslation = None, setLocale = False\<rparr>,
          [''dist/lazy.js'']) \<and>
   name lazy_js = None"
proof -
  have b: "fst (inlineOptionsOf ''dist'' ''out'' False None lazy_js lazy_disk) =
     Inr (\<lparr>filename = ''lazy.js'', code = ''L'', map_text = None, es5 = False,
           outputPath = ''out'', missingTranslation = None, setLocale = False\<rparr>,
          [''dist/lazy.js''])" "name lazy_js = None"
    by (simp_all add: run_defs input_defs more_input_defs)
  have h: "fst (emittedFilesToInlineOptions [main_js, vendor_js, lazy_js, styles_css] [] ''dist''
      ''out'' False None lazy_disk) =
     Inr ([\<lparr>filename = ''main.js'', code = ''M'', map_text = None, es5 = False,
            outputPath = ''out'', missingTranslation = None, setLocale = True\<rparr>,
           \<lparr>filename = ''vendor.js'', code = ''V'', map_text = None, es5 = False,
            outputPath = ''out'', missingTranslation = None, setLocale = True\<rparr>,
           \<lparr>filename = ''lazy.js'', code = ''L'', map_text = None, es5 = False,
            outputPath = ''out'', missingTranslation = None, setLocale = False\<rparr>],
          [''dist/main.js'', ''dist/vendor.js'', ''dist/lazy.js''])"
    by (simp add: run_defs input_defs more_input_defs)
  from setLocale_main_or_vendor [OF h, THEN conjunct1]
  have "map (\<lambda>a. (file' a, name a = Some ''main'' \<or> name a = Some ''vendor''))
     (filter (\<lambda>a. \<not> skipped [] a) [main_js, vendor_js, lazy_js, styles_css]) =
     [(''main.js'', True), (''vendor.js'', True), (''lazy.js'', False)]"
    by simp
  with h b show ?thesis by simp
qed

subsection \<open>C9: a primary file that cannot be deleted\<close>

text \<open>
  Claim C9, as amended. When the primary file of an artifact was read and cannot be
  deleted, the failure is sent to \<open>logger.debug\<close> and the file stays on disk. The failure
  itself is never raised: the only error that the loop body can still throw is the one of
  reading the map file. When that read raises nothing but \<open>ENOENT\<close>, the request is built
  with the content that was read, and the loop goes on with the artifacts that follow;
  when it raises another error, that error ends the loop, with or without a failed
  deletion before it.
\<close>

theorem primary_delete_failure_logged:
  assumes rd: "readFileSync (path_join ep (file' a)) w = Inr content"
    and del: "unlinkSync (path_join ep (file' a)) w = Inl e"
  shows "(\<exists>evs. trace (snd (inlineOptionsOf ep bop lg pol a w)) =
            trace w @ LoggerDebug (unable_to_delete (path_join ep (file' a)) e) # evs) \<and>
         map_of (files (snd (inlineOptionsOf ep bop lg pol a w))) (path_join ep (file' a)) =
           map_of (files w) (path_join ep (file' a)) \<and>
         (\<forall>err. fst (inlineOptionsOf ep bop lg pol a w) = Inl err \<longrightarrow>
            readFileSync (path_join ep (file' a) @ ''.map'') w = Inl err \<and>
            err_code err \<noteq> Some ''ENOENT'') \<and>
         ((\<forall>err. readFileSync (path_join ep (file' a) @ ''.map'') w = Inl err \<longrightarrow>
              err_code err = Some ''ENOENT'') \<longrightarrow>
          (\<exists>action paths.
             fst (inlineOptionsOf ep bop lg pol a w) = Inr (action, paths) \<and>
             code action = content \<and> filename action = file' a \<and>
             path_join ep (file' a) \<in> set paths \<and>
             (\<not> skipped sepn a \<longrightarrow>
                inlineOptionsLoop sepn ep bop lg pol (a # rest) opts orig w =
                inlineOptionsLoop sepn ep bop lg pol rest (opts @ [action]) (orig @ paths)
                  (snd (inlineOptionsOf ep bop lg pol a w)))))"
proof -
  let ?p = "path_join ep (file' a)"
  let ?mp = "?p @ ''.map''"
  let ?body = "inlineOptionsOf ep bop lg pol a w"
  let ?w1 = "try_unlink ?p w"
  have w1: "?w1 = logger_debug (unable_to_delete ?p e) w"
    using del by (rule try_unlink_failed)
  then have t1: "trace ?w1 = trace w @ [LoggerDebug (unable_to_delete ?p e)]"
    and f1: "files ?w1 = files w"
    by (simp_all add: logger_debug_def)
  show ?thesis
  proof (cases rule: inlineOptionsOf_cases [of ep a w bop lg pol])
    case (read_fails e')
    with rd show ?thesis by simp
  next
    case (map_raises c err)
    with t1 f1 show ?thesis by auto
  next
    case (no_map c err)
    with rd have c: "c = content" by simp
    have "trace (snd ?body) = trace w @ LoggerDebug (unable_to_delete ?p e) # [LoggerDebug (queued a)]"
      using no_map(4) t1 by (simp add: logger_debug_def)
    moreover have "files (snd ?body) = files w" using no_map(4) f1 by (simp add: logger_debug_def)
    ultimately show ?thesis using no_map c by (auto simp: actionOf_def)
  next
    case (with_map c m)
    with rd have c: "c = content" by simp
    have "debug_only ?w1 (snd ?body)"
      using with_map(3) debug_only_trans [OF try_unlink_debug debug_only_logger] by simp
    from debug_only_prefix [OF this t1]
    have tr: "\<exists>evs. trace (snd ?body) = trace w @ LoggerDebug (unable_to_delete ?p e) # evs" .
    have "map_of (files (snd ?body)) ?p = map_of (files ?w1) ?p"
      using with_map(3) by (simp add: logger_debug_def try_unlink_other)
    with f1 have fl: "map_of (files (snd ?body)) ?p = map_of (files w) ?p" by simp
    from tr fl with_map c show ?thesis by (auto simp: actionOf_def)
  qed
qed

text \<open>The main bundle cannot be deleted: the failure is logged, the request is built and the file
  is still on disk.\<close>

theorem primary_delete_failure_logged_witness:
  "readFileSync (path_join ''dist'' (file' main_js)) primary_locked_disk = Inr ''M'' \<and>
   unlinkSync (path_join ''dist'' (file' main_js)) primary_locked_disk = Inl eperm \<and>
   fst (inlineOptionsOf ''dist'' ''out'' False (Some MtWarning) main_js primary_locked_disk) =
     Inr (main_action, [''dist/main.js'', ''dist/main.js.map'']) \<and>
   trace (snd (inlineOptionsOf ''dist'' ''out'' False (Some MtWarning) main_js primary_locked_disk)) =
     [LoggerDebug ''Unable to delete i18n temporary file [dist/main.js]: Error: EPERM: operation not permitted'',
      LoggerDebug ''i18n file queued for processing: main.js''] \<and>
   map_of (files (snd (inlineOptionsOf ''dist'' ''out'' False (Some MtWarning) main_js
                         primary_locked_disk))) ''dist/main.js'' = Some ''M''"
proof -
  have rd: "readFileSync (path_join ''dist'' (file' main_js)) primary_locked_disk = Inr ''M''"
    and del: "unlinkSync (path_join ''dist'' (file' main_js)) primary_locked_disk = Inl eperm"
    by (simp_all add: run_defs input_defs more_input_defs)
  note t = primary_delete_failure_logged [OF rd del, of "''out''" False "Some MtWarning"]
  from t have "map_of (files (snd (inlineOptionsOf ''dist'' ''out'' False (Some MtWarning) main_js
      primary_locked_disk))) (path_join ''dist'' (file' main_js)) =
      map_of (files primary_locked_disk) (path_join ''dist'' (file' main_js))"
    by blast
  then have a: "map_of (files (snd (inlineOptionsOf ''dist'' ''out'' False (Some MtWarning) main_js
      primary_locked_disk))) ''dist/main.js'' = Some ''M''"
    by (simp add: path_join_def input_defs more_input_defs)
  have b: "fst (inlineOptionsOf ''dist'' ''out'' False (Some MtWarning) main_js primary_locked_disk) =
     Inr (main_action, [''dist/main.js'', ''dist/main.js.map''])"
    by (simp add: run_defs input_defs more_input_defs)
  have c: "trace (snd (inlineOptionsOf ''dist'' ''out'' False (Some MtWarning) main_js primary_locked_disk)) =
     [LoggerDebug ''Unable to delete i18n temporary file [dist/main.js]: Error: EPERM: operation not permitted'',
      LoggerDebug ''i18n file queued for processing: main.js'']"
    by (simp add: run_defs input_defs more_input_defs)
  from rd del a b c show ?thesis by simp
qed

text \<open>Claim C9 as stated, with the request built and the loop going on after every failed
  deletion, fails where the map file cannot be read either: the main bundle is read, its
  deletion fails and is logged, then the read of its map throws \<open>EACCES\<close>, which lines 72--76
  raise again. No request is built, the runtime script that follows is never consumed,
  and the run returns false.\<close>

theorem delete_failure_then_map_error_aborts:
  "\<not> skipped [] main_js \<and>
   readFileSync (path_join ''dist'' (file' main_js)) locked_unreadable_disk = Inr ''M'' \<and>
   unlinkSync (path_join ''dist'' (file' main_js)) locked_unreadable_disk = Inl eperm \<and>
   readFileSync (path_join ''dist'' (file' main_js) @ ''.map'') locked_unreadable_disk = Inl eacces \<and>
   fst (inlineOptionsOf ''dist'' ''out'' False (Some MtWarning) main_js locked_unreadable_disk) =
     Inl eacces \<and>
   fst (emittedFilesToInlineOptions [main_js, runtime_js] [] ''dist'' ''out'' False
          (Some MtWarning) locked_unreadable_disk) = Inl eacces \<and>
   \<not> fst (i18nInlineEmittedFiles warnings_only [main_js, runtime_js] ''out'' [''out/fr''] []
            ''dist'' False (Some MtWarning) locked_unreadable_disk) \<and>
   trace (snd (i18nInlineEmittedFiles warnings_only [main_js, runtime_js] ''out'' [''out/fr''] []
            ''dist'' False (Some MtWarning) locked_unreadable_disk)) =
     [SpinnerStart (Some ''Generating localized bundles...''),
      LoggerDebug ''Unable to delete i18n temporary file [dist/main.js]: Error: EPERM: operation not permitted'',
      SpinnerFail ''Localized bundle generation failed: EACCES: permission denied'',
      ExecutorStop] \<and>
   map_of (files (snd (i18nInlineEmittedFiles warnings_only [main_js, runtime_js] ''out''
            [''out/fr''] [] ''dist'' False (Some MtWarning) locked_unreadable_disk)))
     ''dist/runtime.js'' = Some ''R''"
  by (simp add: run_defs input_defs locked_unreadable_disk_def)

subsection \<open>C10: consumed paths are recorded whether or not they are deleted\<close>

text \<open>
  Claim C10. When consumption returns, the path of every artifact that is not skipped is
  among the consumed paths, and so is the map path of every request that carries a map;
  nothing is assumed about the deletions, which may have failed. No consumed path is the
  source of a copy made by the run, into any output root. And where the deletion of a
  primary file fails, the loop body still records its path, and the file is still on disk
  when the body is done. The copy is the reconciler of the specification.
\<close>

theorem consumed_paths_recorded:
  assumes ok: "fst (emittedFilesToInlineOptions efs sepn ep bop lg pol (started w)) = Inr (opts, processed)"
  shows "(\<forall>a\<in>set efs. \<not> skipped sepn a \<longrightarrow> path_join ep (file' a) \<in> set processed) \<and>
         (\<forall>opt\<in>set opts. map_text opt \<noteq> None \<longrightarrow>
            path_join ep (filename opt) @ ''.map'' \<in> set processed) \<and>
         (\<forall>p\<in>set processed. \<forall>d.
            CopyFile p d \<in> set (trace (snd (i18nInlineEmittedFiles ex efs bop ops sepn ep lg pol w)))
            \<longrightarrow> CopyFile p d \<in> set (trace w)) \<and>
         (\<forall>a v e action paths.
            unlinkSync (path_join ep (file' a)) v = Inl e \<and>
            fst (inlineOptionsOf ep bop lg pol a v) = Inr (action, paths) \<longrightarrow>
            path_join ep (file' a) \<in> set paths \<and>
            map_of (files (snd (inlineOptionsOf ep bop lg pol a v))) (path_join ep (file' a)) =
              map_of (files v) (path_join ep (file' a)))"
proof -
  obtain c w1 where C: "emittedFilesToInlineOptions efs sepn ep bop lg pol (started w) = (c, w1)"
    by (cases "emittedFilesToInlineOptions efs sepn ep bop lg pol (started w)")
  from ok C have C': "emittedFilesToInlineOptions efs sepn ep bop lg pol (started w) = (Inr (opts, processed), w1)"
    by simp
  note cp = consume_paths [OF C']
  have one: "\<forall>a\<in>set efs. \<not> skipped sepn a \<longrightarrow> path_join ep (file' a) \<in> set processed"
    using cp(2) by blast
  have two: "\<forall>opt\<in>set opts. map_text opt \<noteq> None \<longrightarrow>
      path_join ep (filename opt) @ ''.map'' \<in> set processed"
    using cp(4) by blast
  have three: "\<forall>p\<in>set processed. \<forall>d.
      CopyFile p d \<in> set (trace (snd (i18nInlineEmittedFiles ex efs bop ops sepn ep lg pol w)))
      \<longrightarrow> CopyFile p d \<in> set (trace w)"
    using consumed_never_copied [OF ok] by blast
  from one two three undeleted_primary_recorded show ?thesis by blast
qed

text \<open>Neither the main bundle nor its map can be deleted: both stay on disk, both are consumed
  paths, and neither is copied, while the style sheet is.\<close>

theorem consumed_paths_recorded_witness:
  "fst (emittedFilesToInlineOptions [main_js, styles_css] [] ''dist'' ''out'' False
          (Some MtWarning) (started locked_disk)) =
     Inr ([main_action], [''dist/main.js'', ''dist/main.js.map'']) \<and>
   map_of (files (snd (i18nInlineEmittedFiles warnings_only [main_js, styles_css] ''out''
                         [''out/fr''] [] ''dist'' False (Some MtWarning) locked_disk)))
     ''dist/main.js'' = Some ''M'' \<and>
   map_of (files (snd (i18nInlineEmittedFiles warnings_only [main_js, styles_css] ''out''
                         [''out/fr''] [] ''dist'' False (Some MtWarning) locked_disk)))
     ''dist/main.js.map'' = Some ''MM'' \<and>
   CopyFile ''dist/main.js'' ''out/fr/main.js'' \<notin>
     set (trace (snd (i18nInlineEmittedFiles warnings_only [main_js, styles_css] ''out''
                        [''out/fr''] [] ''dist'' False (Some MtWarning) locked_disk))) \<and>
   CopyFile ''dist/main.js.map'' ''out/fr/main.js.map'' \<notin>
     set (trace (snd (i18nInlineEmittedFiles warnings_only [main_js, styles_css] ''out''
                        [''out/fr''] [] ''dist'' False (Some MtWarning) locked_disk))) \<and>
   map_of (files (snd (i18nInlineEmittedFiles warnings_only [main_js, styles_css] ''out''
                         [''out/fr''] [] ''dist'' False (Some MtWarning) locked_disk)))
     ''out/fr/main.js'' = None \<and>
   map_of (files (snd (i18nInlineEmittedFiles warnings_only [main_js, styles_css] ''out''
                         [''out/fr''] [] ''dist'' False (Some MtWarning) locked_disk)))
     ''out/fr/styles.css'' = Some ''S''"
proof -
  have h: "fst (emittedFilesToInlineOptions [main_js, styles_css] [] ''dist'' ''out'' False
          (Some MtWarning) (started locked_disk)) =
     Inr ([main_action], [''dist/main.js'', ''dist/main.js.map''])"
    by (simp add: run_defs input_defs more_input_defs)
  have e: "trace locked_disk = []" by (simp add: input_defs more_input_defs)
  note t = consumed_paths_recorded [OF h, where ex = warnings_only and ops = "[''out/fr'']",
      THEN conjunct2, THEN conjunct2, THEN conjunct1]
  from t e have a: "CopyFile ''dist/main.js'' ''out/fr/main.js'' \<notin>
     set (trace (snd (i18nInlineEmittedFiles warnings_only [main_js, styles_css] ''out''
                        [''out/fr''] [] ''dist'' False (Some MtWarning) locked_disk)))"
    "CopyFile ''dist/main.js.map'' ''out/fr/main.js.map'' \<notin>
     set (trace (snd (i18nInlineEmittedFiles warnings_only [main_js, styles_css] ''out''
                        [''out/fr''] [] ''dist'' False (Some MtWarning) locked_disk)))"
    by auto
  have f: "map_of (files (snd (i18nInlineEmittedFiles warnings_only [main_js, styles_css] ''out''
                         [''out/fr''] [] ''dist'' False (Some MtWarning) locked_disk)))
     ''dist/main.js'' = Some ''M''"
    "map_of (files (snd (i18nInlineEmittedFiles warnings_only [main_js, styles_css] ''out''
                         [''out/fr''] [] ''dist'' False (Some MtWarning) locked_disk)))
     ''dist/main.js.map'' = Some ''MM''"
    "map_of (files (snd (i18nInlineEmittedFiles warnings_only [main_js, styles_css] ''out''
                         [''out/fr''] [] ''dist'' False (Some MtWarning) locked_disk)))
     ''out/fr/main.js'' = None"
    "map_of (files (snd (i18nInlineEmittedFiles warnings_only [main_js, styles_css] ''out''
                         [''out/fr''] [] ''dist'' False (Some MtWarning) locked_disk)))
     ''out/fr/styles.css'' = Some ''S''"
    by (simp_all add: run_defs input_defs more_input_defs)
  from h a f show ?thesis by simp
qed

end
